theory Spec2Isabelle
  imports Complex_Main
begin

section \<open>Text: Python strings over the code points 0..255\<close>

text \<open>
  The benchmark driver \<^verbatim>\<open>scripts/run.py\<close> works on Python \<^verbatim>\<open>str\<close> values. A string is
  modelled as a \<^typ>\<open>string\<close>; the character with number \<open>n\<close> stands for the code point
  \<open>n\<close>, so the model covers text whose code points are below 256. On these code points
  \<^verbatim>\<open>str.lower\<close> works character by character and \<^verbatim>\<open>str.isspace\<close> holds for
  9..13, 28..32, 133 and 160.
\<close>

definition is_space :: "char \<Rightarrow> bool" where
  "is_space c = (let n = (of_char c :: nat) in
     (9 \<le> n \<and> n \<le> 13) \<or> (28 \<le> n \<and> n \<le> 32) \<or> n = 133 \<or> n = 160)"

definition lower_char :: "char \<Rightarrow> char" where
  "lower_char c = (let n = (of_char c :: nat) in
     if (65 \<le> n \<and> n \<le> 90) \<or> (192 \<le> n \<and> n \<le> 222 \<and> n \<noteq> 215)
     then char_of (n + 32) else c)"

definition lower :: "string \<Rightarrow> string" where
  "lower s = map lower_char s"

definition lstrip :: "string \<Rightarrow> string" where
  "lstrip s = dropWhile is_space s"

definition rstrip :: "string \<Rightarrow> string" where
  "rstrip s = rev (dropWhile is_space (rev s))"

definition strip :: "string \<Rightarrow> string" where
  "strip s = rstrip (lstrip s)"

definition startswith :: "string \<Rightarrow> string \<Rightarrow> bool" where
  "startswith s p = (take (length p) s = p)"

text \<open>\<^verbatim>\<open>s.split(d, 1)\<close> for a string that contains the one-character separator \<open>d\<close>.\<close>

definition split_once :: "char \<Rightarrow> string \<Rightarrow> string \<times> string" where
  "split_once d s = (takeWhile (\<lambda>c. c \<noteq> d) s, tl (dropWhile (\<lambda>c. c \<noteq> d) s))"

text \<open>\<^verbatim>\<open>sep.join(parts)\<close>.\<close>

fun join :: "string \<Rightarrow> string list \<Rightarrow> string" where
  "join sep [] = []"
| "join sep [x] = x"
| "join sep (x # y # ys) = x @ sep @ join sep (y # ys)"

section \<open>The config rewriter\<close>

text \<open>
  \<^verbatim>\<open>set_cfg_value\<close> walks the lines once, carrying the output list and the flag
  \<^verbatim>\<open>found\<close>. The loop has no \<^verbatim>\<open>break\<close>: every line is inspected.
\<close>

fun set_cfg_loop :: "string \<Rightarrow> string \<Rightarrow> string list \<Rightarrow> string list \<times> bool \<Rightarrow> string list \<times> bool" where
  "set_cfg_loop key_lower val [] (out, found) = (out, found)"
| "set_cfg_loop key_lower val (line # lines) (out, found) =
     (let stripped = strip line in
      if stripped = [] \<or> startswith stripped ''#'' \<or> CHR ''='' \<notin> set stripped
      then set_cfg_loop key_lower val lines (out @ [line], found)
      else (let (k, v) = split_once CHR ''='' stripped in
            if lower (strip k) = key_lower
            then set_cfg_loop key_lower val lines (out @ [strip k @ ''='' @ val], True)
            else set_cfg_loop key_lower val lines (out @ [line], found)))"

definition set_cfg_value :: "string list \<Rightarrow> string \<Rightarrow> string \<Rightarrow> string list" where
  "set_cfg_value lines key val =
     (let (out, found) = set_cfg_loop (lower key) val lines ([], False)
      in if \<not> found then out @ [key @ ''='' @ val] else out)"

subsection \<open>Vocabulary for the properties of the rewriter\<close>

text \<open>A line the loop may edit: not blank, not a comment, and with an equals sign.\<close>

definition editable :: "string \<Rightarrow> bool" where
  "editable line = (strip line \<noteq> [] \<and> \<not> startswith (strip line) ''#'' \<and> CHR ''='' \<in> set (strip line))"

definition is_comment :: "string \<Rightarrow> bool" where
  "is_comment line = startswith (strip line) ''#''"

text \<open>The key of an editable line: the text before its first equals sign, stripped.\<close>

definition line_key :: "string \<Rightarrow> string" where
  "line_key line = strip (fst (split_once CHR ''='' (strip line)))"

definition matches :: "string \<Rightarrow> string \<Rightarrow> bool" where
  "matches key line = (editable line \<and> lower (line_key line) = lower key)"

definition rewrite :: "string \<Rightarrow> string \<Rightarrow> string \<Rightarrow> string" where
  "rewrite key val line = (if matches key line then line_key line @ ''='' @ val else line)"

text \<open>
  The reading "first match wins": only the first matching line is rewritten, later
  matching lines are kept. This function follows the words of the specification, not
  the code.
\<close>

fun first_match_wins :: "string \<Rightarrow> string \<Rightarrow> string list \<Rightarrow> string list" where
  "first_match_wins key val [] = [key @ ''='' @ val]"
| "first_match_wins key val (line # lines) =
     (if matches key line then (line_key line @ ''='' @ val) # lines
      else line # first_match_wins key val lines)"

text \<open>A key that the rewriter finds again in the line it appended for it.\<close>

definition clean_key :: "string \<Rightarrow> bool" where
  "clean_key key = (strip key = key \<and> CHR ''='' \<notin> set key \<and> \<not> startswith key ''#'')"

section \<open>Files and errors\<close>

text \<open>
  The file system is a map from paths to the text of the file at that path. Every
  \<^verbatim>\<open>raise\<close> of the script, and every exception of a library call that the script's input
  can cause, is a value of \<open>error\<close>; a function that may raise returns \<open>error + 'a\<close>.
  Failures of the operating system other than a missing file (permissions, a full disk)
  are outside the model.
\<close>

type_synonym files = "string \<rightharpoonup> string"

definition no_files :: files where
  "no_files = (\<lambda>p. None)"

datatype error =
    FileNotFoundError string   \<comment> \<open>\<^verbatim>\<open>open(path, "r")\<close> on a missing file\<close>
  | ProgramFailed int          \<comment> \<open>\<^verbatim>\<open>RuntimeError("Program failed (code ...)")\<close>\<close>
  | TimeoutExpired             \<comment> \<open>raised by \<^verbatim>\<open>subprocess.run\<close>\<close>
  | MissingColumn string       \<comment> \<open>\<^verbatim>\<open>ValueError("Missing '...' column ...")\<close>\<close>
  | NoRowsFound                \<comment> \<open>\<^verbatim>\<open>ValueError("No rows found ...")\<close>\<close>
  | FloatValueError string     \<comment> \<open>\<^verbatim>\<open>float(s)\<close> on text that is not a number\<close>
  | FloatTypeError             \<comment> \<open>\<^verbatim>\<open>float(None)\<close>\<close>
  | IntValueError string       \<comment> \<open>\<^verbatim>\<open>int(s)\<close> on text that is not an integer\<close>
  | IntTypeError               \<comment> \<open>\<^verbatim>\<open>int(None)\<close>\<close>
  | MasterMissingColumn        \<comment> \<open>\<^verbatim>\<open>KeyError("Master CSV missing 'eval_time_ms' ...")\<close>\<close>
  | KeyError string            \<comment> \<open>\<^verbatim>\<open>row[key]\<close> for a key the row does not have\<close>
  | NoValues                   \<comment> \<open>\<^verbatim>\<open>ValueError("No fitness values to analyze.")\<close>\<close>
  | StatisticsError            \<comment> \<open>\<^verbatim>\<open>statistics.mean\<close> of no data\<close>

abbreviation LF :: char where "LF \<equiv> CHR 0x0A"
abbreviation CR :: char where "CR \<equiv> CHR 0x0D"

text \<open>
  Reading a file opened in text mode with the default \<^verbatim>\<open>newline=None\<close> translates
  \<^verbatim>\<open>\r\n\<close> and \<^verbatim>\<open>\r\<close> to \<^verbatim>\<open>\n\<close>.
\<close>

fun universal_newlines :: "string \<Rightarrow> string" where
  "universal_newlines [] = []"
| "universal_newlines [c] = (if c = CR then [LF] else [c])"
| "universal_newlines (c # d # cs) =
     (if c = CR then (if d = LF then LF # universal_newlines cs
                      else LF # universal_newlines (d # cs))
      else c # universal_newlines (d # cs))"

text \<open>
  \<^verbatim>\<open>str.splitlines()\<close>: the line boundaries below code point 256 are
  \<^verbatim>\<open>\n \v \f \r\<close> (10..13), the separators 28..30 and NEL (133); \<^verbatim>\<open>\r\n\<close> is one
  boundary. The first argument is the line read so far.
\<close>

definition is_linebreak :: "char \<Rightarrow> bool" where
  "is_linebreak c = (let n = (of_char c :: nat) in
     (10 \<le> n \<and> n \<le> 13) \<or> (28 \<le> n \<and> n \<le> 30) \<or> n = 133)"

fun splitlines_from :: "string \<Rightarrow> string \<Rightarrow> string list" where
  "splitlines_from cur [] = (if cur = [] then [] else [cur])"
| "splitlines_from cur [c] = (if is_linebreak c then [cur] else [cur @ [c]])"
| "splitlines_from cur (c # d # cs) =
     (if c = CR \<and> d = LF then cur # splitlines_from [] cs
      else if is_linebreak c then cur # splitlines_from [] (d # cs)
      else splitlines_from (cur @ [c]) (d # cs))"

definition splitlines :: "string \<Rightarrow> string list" where
  "splitlines s = splitlines_from [] s"

subsection \<open>Reading and writing a config file\<close>

definition parse_cfg :: "string \<Rightarrow> files \<Rightarrow> error + string list" where
  "parse_cfg path fs =
     (case fs path of
        None \<Rightarrow> Inl (FileNotFoundError path)
      | Some text \<Rightarrow> Inr (splitlines (universal_newlines text)))"

text \<open>The file is opened with \<^verbatim>\<open>newline="\n"\<close>: what is written is stored as it is.\<close>

definition write_cfg :: "string list \<Rightarrow> string \<Rightarrow> files \<Rightarrow> files" where
  "write_cfg lines path fs = fs(path \<mapsto> join [LF] lines @ [LF])"

section \<open>Library functions taken as parameters\<close>

text \<open>
  The script calls the standard library for the CSV syntax and for the text form of
  numbers. These are not code of the repository, so they are parameters of the model:
  \<^item> \<open>csv_reader\<close>: the rows that \<^verbatim>\<open>csv.reader\<close> yields for a text file with the given
    content, each row a list of fields (a blank line yields the empty row);
  \<^item> \<open>float_of\<close>: \<^verbatim>\<open>float(s)\<close>, \<open>None\<close> where it raises \<^verbatim>\<open>ValueError\<close>;
  \<^item> \<open>int_of\<close>: \<^verbatim>\<open>int(s)\<close>, \<open>None\<close> where it raises \<^verbatim>\<open>ValueError\<close>;
  \<^item> \<open>repr_float\<close>: the text \<^verbatim>\<open>csv.writer\<close> writes for a float.

  A Python \<^verbatim>\<open>float\<close> is modelled as a \<^typ>\<open>real\<close>: rounding, infinities and NaN are
  outside the model.
\<close>

record lib =
  csv_reader :: "string \<Rightarrow> string list list"
  float_of :: "string \<Rightarrow> real option"
  int_of :: "string \<Rightarrow> int option"
  repr_float :: "real \<Rightarrow> string"

text \<open>\<^verbatim>\<open>str(n)\<close> for an integer: decimal digits, with a minus sign when negative.\<close>

definition digit_char :: "nat \<Rightarrow> char" where
  "digit_char d = char_of (48 + d)"

function str_nat :: "nat \<Rightarrow> string" where
  "str_nat n = (if n < 10 then [digit_char n] else str_nat (n div 10) @ [digit_char (n mod 10)])"
  by pat_completeness auto
termination
  by (relation "measure (\<lambda>n. n)") auto

definition str_int :: "int \<Rightarrow> string" where
  "str_int i = (if i < 0 then CHR ''-'' # str_nat (nat (- i)) else str_nat (nat i))"

section \<open>Reading CSV files with \<^verbatim>\<open>csv.DictReader\<close>\<close>

text \<open>
  \<^verbatim>\<open>DictReader\<close> takes the first row as the field names. Every later row that is not
  empty becomes a dictionary: the fields are paired with the names in order (for a name
  that occurs twice the later column wins), and each name beyond the end of a short row
  is mapped to \<^verbatim>\<open>None\<close>. A dictionary is a map from keys to \<open>Some field\<close> or \<open>None\<close>
  (Python's \<^verbatim>\<open>None\<close>). The surplus fields of a long row, stored under the key
  \<^verbatim>\<open>None\<close>, are never read by the script and are left out.
\<close>

type_synonym csv_dict = "string \<rightharpoonup> string option"

definition fieldnames :: "string list list \<Rightarrow> string list" where
  "fieldnames rows = (case rows of [] \<Rightarrow> [] | h # rest \<Rightarrow> h)"

definition dict_row :: "string list \<Rightarrow> string list \<Rightarrow> csv_dict" where
  "dict_row names row =
     fold (\<lambda>key d. d(key \<mapsto> None)) (drop (length row) names)
       (map_of (rev (zip names (map Some row))))"

definition dict_rows :: "string list list \<Rightarrow> csv_dict list" where
  "dict_rows rows =
     (case rows of [] \<Rightarrow> [] | h # rest \<Rightarrow> map (dict_row h) (filter (\<lambda>r. r \<noteq> []) rest))"

subsection \<open>The result reader\<close>

text \<open>
  The loop of \<^verbatim>\<open>read_fitness_csv\<close> carries the list \<^verbatim>\<open>fitness_values\<close> and the
  variable \<^verbatim>\<open>eval_time_ms\<close>, which is \<^verbatim>\<open>None\<close> until the first row that is not skipped.
\<close>

fun read_fitness_loop ::
  "(string \<Rightarrow> real option) \<Rightarrow> csv_dict list \<Rightarrow> real list \<times> real option
     \<Rightarrow> error + real list \<times> real option" where
  "read_fitness_loop fl [] (fitness_values, eval_time_ms) = Inr (fitness_values, eval_time_ms)"
| "read_fitness_loop fl (row # rows) (fitness_values, eval_time_ms) =
     (case row ''fitness'' of
        None \<Rightarrow> read_fitness_loop fl rows (fitness_values, eval_time_ms)
      | Some None \<Rightarrow> read_fitness_loop fl rows (fitness_values, eval_time_ms)
      | Some (Some s) \<Rightarrow>
          if strip s = [] then read_fitness_loop fl rows (fitness_values, eval_time_ms)
          else (case fl s of
                  None \<Rightarrow> Inl (FloatValueError s)
                | Some x \<Rightarrow>
                    (case eval_time_ms of
                       Some t \<Rightarrow> read_fitness_loop fl rows (fitness_values @ [x], eval_time_ms)
                     | None \<Rightarrow>
                         (case row ''eval_time_ms'' of
                            None \<Rightarrow> Inl (KeyError ''eval_time_ms'')
                          | Some None \<Rightarrow> Inl FloatTypeError
                          | Some (Some u) \<Rightarrow>
                              (case fl u of
                                 None \<Rightarrow> Inl (FloatValueError u)
                               | Some y \<Rightarrow>
                                   read_fitness_loop fl rows (fitness_values @ [x], Some y))))))"

definition read_fitness_rows ::
  "(string \<Rightarrow> real option) \<Rightarrow> string list list \<Rightarrow> error + real list \<times> real" where
  "read_fitness_rows fl rows =
     (let headers = fieldnames rows in
      if ''fitness'' \<notin> set headers then Inl (MissingColumn ''fitness'')
      else if ''eval_time_ms'' \<notin> set headers then Inl (MissingColumn ''eval_time_ms'')
      else (case read_fitness_loop fl (dict_rows rows) ([], None) of
              Inl e \<Rightarrow> Inl e
            | Inr (fitness_values, None) \<Rightarrow> Inl NoRowsFound
            | Inr (fitness_values, Some t) \<Rightarrow> Inr (fitness_values, t)))"

definition read_fitness_csv :: "lib \<Rightarrow> string \<Rightarrow> files \<Rightarrow> error + real list \<times> real" where
  "read_fitness_csv lb csv_path fs =
     (case fs csv_path of
        None \<Rightarrow> Inl (FileNotFoundError csv_path)
      | Some text \<Rightarrow> read_fitness_rows (float_of lb) (csv_reader lb text))"

text \<open>Vocabulary: a row the loop does not skip, and the two fields it reads.\<close>

definition usable :: "csv_dict \<Rightarrow> bool" where
  "usable row = (case row ''fitness'' of Some (Some s) \<Rightarrow> strip s \<noteq> [] | _ \<Rightarrow> False)"

definition field :: "string \<Rightarrow> csv_dict \<Rightarrow> string" where
  "field key row = (case row key of Some (Some s) \<Rightarrow> s | _ \<Rightarrow> [])"

section \<open>The master CSV\<close>

text \<open>
  \<^verbatim>\<open>csv.writer.writerow\<close> with the default dialect: the fields joined by commas and ended
  by \<^verbatim>\<open>\r\n\<close>. The fields the script writes are integers, floats and four fixed names,
  none of which needs quoting. The file is opened with \<^verbatim>\<open>newline=""\<close>: what is written
  is stored as it is.
\<close>

definition csv_line :: "string list \<Rightarrow> string" where
  "csv_line row = join '','' row @ [CR, LF]"

definition master_header :: "string list" where
  "master_header = [''run'', ''experiment'', ''fitness'', ''eval_time_ms'']"

definition master_rows :: "(real \<Rightarrow> string) \<Rightarrow> int \<Rightarrow> real list \<Rightarrow> real \<Rightarrow> string list list" where
  "master_rows repr run_id fitness_values eval_time_ms =
     map (\<lambda>(exp_idx, fit). [str_int run_id, str_int (int exp_idx), repr fit, repr eval_time_ms])
       (enumerate 0 fitness_values)"

definition append_run_to_master ::
  "(real \<Rightarrow> string) \<Rightarrow> string \<Rightarrow> int \<Rightarrow> real list \<Rightarrow> real \<Rightarrow> files \<Rightarrow> files" where
  "append_run_to_master repr master_csv run_id fitness_values eval_time_ms fs =
     (let file_exists = (fs master_csv \<noteq> None);
          before = (case fs master_csv of None \<Rightarrow> [] | Some text \<Rightarrow> text);
          header = (if \<not> file_exists then csv_line master_header else [])
      in fs(master_csv \<mapsto>
           before @ header
             @ concat (map csv_line (master_rows repr run_id fitness_values eval_time_ms))))"

text \<open>The text of the file at a path; a missing file has none.\<close>

definition content :: "files \<Rightarrow> string \<Rightarrow> string" where
  "content fs p = (case fs p of None \<Rightarrow> [] | Some text \<Rightarrow> text)"

section \<open>Statistics\<close>

text \<open>
  The functions of the \<^verbatim>\<open>statistics\<close> module and the built-in \<^verbatim>\<open>min\<close> and \<^verbatim>\<open>max\<close>,
  over the reals. They are only called on non-empty lists (\<open>stdev\<close> on lists of at
  least two values): the callers check before.
\<close>

definition fmean :: "real list \<Rightarrow> real" where
  "fmean values = sum_list values / real (length values)"

definition sum_sq_dev :: "real list \<Rightarrow> real" where
  "sum_sq_dev values = sum_list (map (\<lambda>x. (x - fmean values)\<^sup>2) values)"

definition pstdev :: "real list \<Rightarrow> real" where
  "pstdev values = sqrt (sum_sq_dev values / real (length values))"

definition stdev :: "real list \<Rightarrow> real" where
  "stdev values = sqrt (sum_sq_dev values / real (length values - 1))"

definition minimum :: "real list \<Rightarrow> real" where
  "minimum values = fold min (tl values) (hd values)"

definition maximum :: "real list \<Rightarrow> real" where
  "maximum values = fold max (tl values) (hd values)"

definition median :: "real list \<Rightarrow> real" where
  "median values =
     (let data = sort values; n = length data
      in if n mod 2 = 1 then data ! (n div 2)
         else (data ! (n div 2 - 1) + data ! (n div 2)) / 2)"

text \<open>The dictionary that \<^verbatim>\<open>analyze\<close> returns, one field for each key.\<close>

record stats =
  count_v :: real
  mean_v :: real
  pstdev_v :: real
  stdev_v :: real
  min_v :: real
  max_v :: real
  range_v :: real
  median_v :: real

definition analyze :: "real list \<Rightarrow> error + stats" where
  "analyze values =
     (if values = [] then Inl NoValues
      else
        (let mean = fmean values;
             pstdev = pstdev values;
             stdev = (if length values \<ge> 2 then stdev values else 0);
             vmin = minimum values;
             vmax = maximum values;
             med = median values
         in Inr \<lparr>count_v = real (length values), mean_v = mean, pstdev_v = pstdev,
                 stdev_v = stdev, min_v = vmin, max_v = vmax, range_v = vmax - vmin,
                 median_v = med\<rparr>))"

subsection \<open>Run times from the master CSV\<close>

text \<open>
  \<^verbatim>\<open>times_by_run\<close> is a dictionary from run ids to times. It is modelled as an
  association list in insertion order, which is the order of \<^verbatim>\<open>times_by_run.values()\<close>.
\<close>

record time_stats =
  runs_v :: nat
  avg_ms :: real
  min_ms :: real
  max_ms :: real

fun times_loop ::
  "(string \<Rightarrow> int option) \<Rightarrow> (string \<Rightarrow> real option) \<Rightarrow> csv_dict list \<Rightarrow> (int \<times> real) list
     \<Rightarrow> error + (int \<times> real) list" where
  "times_loop io fl [] times_by_run = Inr times_by_run"
| "times_loop io fl (row # rows) times_by_run =
     (case row ''run'' of
        None \<Rightarrow> Inl (KeyError ''run'')
      | Some None \<Rightarrow> Inl IntTypeError
      | Some (Some r) \<Rightarrow>
          (case io r of
             None \<Rightarrow> Inl (IntValueError r)
           | Some run_id \<Rightarrow>
               if map_of times_by_run run_id = None
               then (case row ''eval_time_ms'' of
                       None \<Rightarrow> Inl (KeyError ''eval_time_ms'')
                     | Some None \<Rightarrow> Inl FloatTypeError
                     | Some (Some u) \<Rightarrow>
                         (case fl u of
                            None \<Rightarrow> Inl (FloatValueError u)
                          | Some y \<Rightarrow> times_loop io fl rows (times_by_run @ [(run_id, y)])))
               else times_loop io fl rows times_by_run))"

definition analyze_times_rows ::
  "(string \<Rightarrow> int option) \<Rightarrow> (string \<Rightarrow> real option) \<Rightarrow> string list list \<Rightarrow> error + time_stats" where
  "analyze_times_rows io fl rows =
     (let headers = fieldnames rows in
      if ''eval_time_ms'' \<notin> set headers then Inl MasterMissingColumn
      else (case times_loop io fl (dict_rows rows) [] of
              Inl e \<Rightarrow> Inl e
            | Inr times_by_run \<Rightarrow>
                (let times = map snd times_by_run in
                 if times = [] then Inl StatisticsError
                 else Inr \<lparr>runs_v = length times, avg_ms = fmean times,
                           min_ms = minimum times, max_ms = maximum times\<rparr>)))"

definition analyze_times_from_master :: "lib \<Rightarrow> string \<Rightarrow> files \<Rightarrow> error + time_stats" where
  "analyze_times_from_master lb master_csv fs =
     (case fs master_csv of
        None \<Rightarrow> Inl (FileNotFoundError master_csv)
      | Some text \<Rightarrow> analyze_times_rows (int_of lb) (float_of lb) (csv_reader lb text))"

section \<open>The external program and the script\<close>

text \<open>
  The benchmarked program is opaque: \<open>program argv timeout n fs\<close> is what the \<open>n\<close>-th
  subprocess started by the script does when run with the arguments \<open>argv\<close> on the files
  \<open>fs\<close>: it exits with a code or is still running when the timeout elapses, and leaves
  the files as returned. The environment also gives the name of the temporary directory
  and the readings of the clock (\<^verbatim>\<open>int(time.time())\<close>) before the loop and in each run.
\<close>

datatype proc_result = Exited int | TimedOut

record env =
  program :: "string list \<Rightarrow> int \<Rightarrow> nat \<Rightarrow> files \<Rightarrow> proc_result \<times> files"
  tmpdir :: string
  start_time :: int
  run_time :: "nat \<Rightarrow> int"

definition run_program :: "env \<Rightarrow> string \<Rightarrow> string \<Rightarrow> int \<Rightarrow> nat \<Rightarrow> files \<Rightarrow> (error + unit) \<times> files" where
  "run_program ev exe cfg_path timeout_sec n fs =
     (case program ev [exe, cfg_path] timeout_sec n fs of
        (TimedOut, fs') \<Rightarrow> (Inl TimeoutExpired, fs')
      | (Exited returncode, fs') \<Rightarrow>
          (if returncode \<noteq> 0 then Inl (ProgramFailed returncode) else Inr (), fs'))"

datatype seed_mode = Keep | Time | Increment

record args =
  exe :: string
  config :: string
  runs :: int
  master_csv :: string   \<comment> \<open>\<^verbatim>\<open>--out\<close>\<close>
  seed_mode :: seed_mode
  base_seed :: "int option"
  timeout :: int

text \<open>What the script prints, one value for each \<^verbatim>\<open>print\<close> or block of prints.\<close>

datatype printout =
    Stderr string
  | RunAppended nat int nat        \<comment> \<open>\<^verbatim>\<open>Run i/runs: appended k fitness values\<close>\<close>
  | FitnessAnalytics stats
  | MasterWritten string
  | RuntimeAnalytics time_stats

text \<open>
  The state of a run of the script: the files, the number of subprocesses started so
  far, what has been printed, and the list \<^verbatim>\<open>all_values\<close>.
\<close>

record state =
  files :: files
  spawned :: nat
  printed :: "printout list"
  all_values :: "real list"

datatype outcome = Returned int | Raised error

text \<open>\<^verbatim>\<open>tmpdir_path / name\<close>, and the removal of the temporary directory with all it holds.\<close>

definition tmp_file :: "string \<Rightarrow> string \<Rightarrow> string" where
  "tmp_file dir name = dir @ ''/'' @ name"

definition cleanup :: "string \<Rightarrow> files \<Rightarrow> files" where
  "cleanup dir fs = (\<lambda>p. if startswith p (dir @ ''/'') then None else fs p)"

text \<open>
  The names and the config lines of one run: the result file \<^verbatim>\<open>out_csv\<close>, the temporary
  config file \<^verbatim>\<open>tmp_cfg\<close>, and the base lines with the \<open>output\<close> key forced and the
  \<open>seed\<close> key set as the seed mode says.
\<close>

definition out_csv_path :: "env \<Rightarrow> nat \<Rightarrow> string" where
  "out_csv_path ev run_id = tmp_file (tmpdir ev) (''run_'' @ str_int (int run_id) @ ''_fitness.csv'')"

definition tmp_cfg_path :: "env \<Rightarrow> nat \<Rightarrow> string" where
  "tmp_cfg_path ev run_id = tmp_file (tmpdir ev) (''run_'' @ str_int (int run_id) @ ''.cfg'')"

definition run_lines :: "env \<Rightarrow> args \<Rightarrow> string list \<Rightarrow> int \<Rightarrow> nat \<Rightarrow> string list" where
  "run_lines ev a base_lines bseed run_id =
     (let lines = set_cfg_value base_lines ''output'' (out_csv_path ev run_id)
      in case seed_mode a of
           Time \<Rightarrow> set_cfg_value lines ''seed'' (str_int (run_time ev run_id))
         | Increment \<Rightarrow> set_cfg_value lines ''seed'' (str_int (bseed + int run_id))
         | Keep \<Rightarrow> lines)"

text \<open>The body of the run loop for one \<^verbatim>\<open>run_id\<close>; \<open>Some e\<close> is an exception that leaves it.\<close>

definition run_once ::
  "lib \<Rightarrow> env \<Rightarrow> args \<Rightarrow> string list \<Rightarrow> int \<Rightarrow> nat \<Rightarrow> state \<Rightarrow> error option \<times> state" where
  "run_once lb ev a base_lines bseed run_id s =
     (let fs1 = write_cfg (run_lines ev a base_lines bseed run_id) (tmp_cfg_path ev run_id) (files s);
          (r, fs2) = run_program ev (exe a) (tmp_cfg_path ev run_id) (timeout a) (spawned s) fs1;
          s2 = s\<lparr>files := fs2, spawned := Suc (spawned s)\<rparr>
      in case r of
           Inl e \<Rightarrow> (Some e, s2)
         | Inr u \<Rightarrow>
             (case read_fitness_csv lb (out_csv_path ev run_id) fs2 of
                Inl e \<Rightarrow> (Some e, s2)
              | Inr (fitness_vals, eval_time_ms) \<Rightarrow>
                  (None,
                   s2\<lparr>files := append_run_to_master (repr_float lb) (master_csv a) (int run_id)
                                 fitness_vals eval_time_ms fs2,
                      all_values := all_values s @ fitness_vals,
                      printed := printed s
                        @ [RunAppended (run_id + 1) (runs a) (length fitness_vals)]\<rparr>)))"

fun run_loop ::
  "lib \<Rightarrow> env \<Rightarrow> args \<Rightarrow> string list \<Rightarrow> int \<Rightarrow> nat list \<Rightarrow> state \<Rightarrow> error option \<times> state" where
  "run_loop lb ev a base_lines bseed [] s = (None, s)"
| "run_loop lb ev a base_lines bseed (run_id # ids) s =
     (case run_once lb ev a base_lines bseed run_id s of
        (Some e, s') \<Rightarrow> (Some e, s')
      | (None, s') \<Rightarrow> run_loop lb ev a base_lines bseed ids s')"

definition initial :: "files \<Rightarrow> state" where
  "initial fs0 = \<lparr>files = fs0, spawned = 0, printed = [], all_values = []\<rparr>"

definition seed_base :: "env \<Rightarrow> args \<Rightarrow> int" where
  "seed_base ev a = (case base_seed a of None \<Rightarrow> start_time ev | Some b \<Rightarrow> b)"

definition main :: "lib \<Rightarrow> env \<Rightarrow> args \<Rightarrow> files \<Rightarrow> outcome \<times> state" where
  "main lb ev a fs0 =
     (let s0 = initial fs0 in
      if fs0 (exe a) = None
      then (Returned 2, s0\<lparr>printed := [Stderr (''ERROR: exe not found: '' @ exe a)]\<rparr>)
      else if fs0 (config a) = None
      then (Returned 2, s0\<lparr>printed := [Stderr (''ERROR: config not found: '' @ config a)]\<rparr>)
      else if runs a \<le> 0
      then (Returned 2, s0\<lparr>printed := [Stderr ''ERROR: --runs must be > 0'']\<rparr>)
      else
        (case parse_cfg (config a) fs0 of
           Inl e \<Rightarrow> (Raised e, s0)
         | Inr base_lines \<Rightarrow>
             (let bseed = seed_base ev a;
                  (err, s1) = run_loop lb ev a base_lines bseed [0..<nat (runs a)] s0;
                  s2 = s1\<lparr>files := cleanup (tmpdir ev) (files s1)\<rparr>
              in case err of
                   Some e \<Rightarrow> (Raised e, s2)
                 | None \<Rightarrow>
                     (case analyze (all_values s2) of
                        Inl e \<Rightarrow> (Raised e, s2)
                      | Inr stats_all \<Rightarrow>
                          (let s3 = s2\<lparr>printed := printed s2
                                     @ [FitnessAnalytics stats_all, MasterWritten (master_csv a)]\<rparr>
                           in case analyze_times_from_master lb (master_csv a) (files s3) of
                                Inl e \<Rightarrow> (Raised e, s3)
                              | Inr time_stats \<Rightarrow>
                                  (Returned 0,
                                   s3\<lparr>printed := printed s3 @ [RuntimeAnalytics time_stats]\<rparr>))))))"

text \<open>The counts \<open>k\<close> of the lines \<^verbatim>\<open>Run i/runs: appended k fitness values\<close> printed so far.\<close>

fun appended_counts :: "printout list \<Rightarrow> nat list" where
  "appended_counts [] = []"
| "appended_counts (RunAppended i n k # ps) = k # appended_counts ps"
| "appended_counts (p # ps) = appended_counts ps"

text \<open>The benchmarked program leaves the file at path \<open>p\<close> as it is.\<close>

definition program_keeps :: "env \<Rightarrow> string \<Rightarrow> bool" where
  "program_keeps ev p = (\<forall>argv t n fs. snd (program ev argv t n fs) p = fs p)"

text \<open>
  The rows that a list of runs puts into the master CSV: for each run, given by its id,
  its fitness values and its time, the rows of that run, in the order of the runs.
\<close>

definition run_rows :: "(real \<Rightarrow> string) \<Rightarrow> (nat \<times> real list \<times> real) list \<Rightarrow> string list list" where
  "run_rows repr rd = concat (map (\<lambda>(run_id, vals, t). master_rows repr (int run_id) vals t) rd)"

section \<open>A concrete library and environment for examples\<close>

text \<open>
  To run the model on concrete inputs the parameters need values. \<open>plain_lib\<close> reads CSV
  text that has no quoted fields (rows are the lines, fields are split at commas, a blank
  line is the empty row) and numbers that are written as decimal digits, optionally
  followed by \<open>.0\<close>; it writes a float with a whole value as its digits followed by
  \<open>.0\<close>. On such text it agrees with the library functions it stands for.
\<close>

fun split_on :: "char \<Rightarrow> string \<Rightarrow> string \<Rightarrow> string list" where
  "split_on d cur [] = [cur]"
| "split_on d cur (c # cs) =
     (if c = d then cur # split_on d [] cs else split_on d (cur @ [c]) cs)"

definition plain_csv_reader :: "string \<Rightarrow> string list list" where
  "plain_csv_reader text =
     map (\<lambda>l. if l = [] then [] else split_on CHR '','' [] l) (splitlines (universal_newlines text))"

fun dec_value :: "nat \<Rightarrow> string \<Rightarrow> nat option" where
  "dec_value acc [] = Some acc"
| "dec_value acc (c # cs) =
     (let n = (of_char c :: nat) in
      if 48 \<le> n \<and> n \<le> 57 then dec_value (10 * acc + (n - 48)) cs else None)"

definition plain_int_of :: "string \<Rightarrow> int option" where
  "plain_int_of s = (if s = [] then None else map_option int (dec_value 0 s))"

definition plain_float_of :: "string \<Rightarrow> real option" where
  "plain_float_of s =
     (let t = (if 2 \<le> length s \<and> drop (length s - 2) s = ''.0'' then take (length s - 2) s else s)
      in if t = [] then None else map_option real (dec_value 0 t))"

definition plain_repr_float :: "real \<Rightarrow> string" where
  "plain_repr_float x = str_int \<lfloor>x\<rfloor> @ ''.0''"

definition plain_lib :: lib where
  "plain_lib = \<lparr>csv_reader = plain_csv_reader, float_of = plain_float_of,
                 int_of = plain_int_of, repr_float = plain_repr_float\<rparr>"

text \<open>
  A stand-in for the benchmarked program, given as a list with one entry for each run:
  the \<open>n\<close>-th run stores the text of the \<open>n\<close>-th entry as the result file of run \<open>n\<close>
  in the temporary directory \<open>/tmp/bench\<close> and exits with the code of that entry; a run
  beyond the list hangs until the timeout.
\<close>

definition fake_program :: "(int \<times> string) list \<Rightarrow> string list \<Rightarrow> int \<Rightarrow> nat \<Rightarrow> files \<Rightarrow> proc_result \<times> files" where
  "fake_program script argv timeout_sec n fs =
     (if n < length script
      then (Exited (fst (script ! n)),
            fs(tmp_file ''/tmp/bench'' (''run_'' @ str_int (int n) @ ''_fitness.csv'')
                 \<mapsto> snd (script ! n)))
      else (TimedOut, fs))"

definition fake_env :: "(int \<times> string) list \<Rightarrow> env" where
  "fake_env script =
     \<lparr>program = fake_program script, tmpdir = ''/tmp/bench'', start_time = 1000,
      run_time = (\<lambda>n. 1000 + int n)\<rparr>"

text \<open>A result file with three experiments, and result files that the reader rejects.\<close>

definition three_rows :: string where
  "three_rows = ''experiment,fitness,eval_time_ms'' @ [LF] @ ''0,1.0,5.0'' @ [LF]
                @ ''1,2.0,5.0'' @ [LF] @ ''2,3.0,5.0'' @ [LF]"

definition no_fitness_column :: string where
  "no_fitness_column = ''experiment,eval_time_ms'' @ [LF] @ ''0,5.0'' @ [LF]"

definition header_only :: string where
  "header_only = ''experiment,fitness,eval_time_ms'' @ [LF]"

definition blank_fitness_row :: string where
  "blank_fitness_row = ''experiment,fitness,eval_time_ms'' @ [LF] @ ''0,,9.0'' @ [LF]
                       @ ''1,2.0,5.0'' @ [LF] @ ''2,3.0,6.0'' @ [LF]"

text \<open>The files before the script starts, and its arguments.\<close>

definition start_files :: files where
  "start_files = no_files(''./project1'' \<mapsto> ''(binary)'', ''input.cfg'' \<mapsto> ''m=3'' @ [LF] @ ''seed=1'' @ [LF])"

definition bench_args :: "int \<Rightarrow> args" where
  "bench_args n = \<lparr>exe = ''./project1'', config = ''input.cfg'', runs = n,
                    master_csv = ''fitness_master.csv'', seed_mode = Increment,
                    base_seed = Some 7, timeout = 60\<rparr>"

text \<open>A master CSV left by an earlier invocation of three runs with one experiment each.\<close>

definition old_master :: string where
  "old_master = ''run,experiment,fitness,eval_time_ms'' @ [CR, LF] @ ''0,0,4.0,9.0'' @ [CR, LF]
                @ ''1,0,4.0,9.0'' @ [CR, LF] @ ''2,0,4.0,9.0'' @ [CR, LF]"

definition no_time_column :: string where
  "no_time_column = ''experiment,fitness'' @ [LF] @ ''0,1.0'' @ [LF]"

text \<open>A program whose second run exits with code 3, and one whose result file has no rows.\<close>

definition second_run_fails :: env where
  "second_run_fails = fake_env [(0, three_rows), (3, three_rows), (0, three_rows)]"

definition writes_no_rows :: env where
  "writes_no_rows = fake_env [(0, header_only), (0, three_rows)]"

text \<open>A program that succeeds twice with three experiments each.\<close>

definition two_good_runs :: env where
  "two_good_runs = fake_env [(0, three_rows), (0, three_rows)]"

text \<open>
  A program that succeeds once with three experiments of 5 ms, and the files of an
  invocation that finds the master CSV of an earlier invocation.
\<close>

definition one_good_run :: env where
  "one_good_run = fake_env [(0, three_rows)]"

definition files_with_old_master :: files where
  "files_with_old_master = start_files(''fitness_master.csv'' \<mapsto> old_master)"

text \<open>
  A result file whose first data row has no fitness field at all and whose second has a
  blank one.
\<close>

definition gaps_in_fitness :: string where
  "gaps_in_fitness = ''experiment,fitness,eval_time_ms'' @ [LF] @ ''0'' @ [LF] @ ''1,,9.0'' @ [LF]
                     @ ''2,2.0,5.0'' @ [LF] @ ''3,3.0,6.0'' @ [LF]"

section \<open>Properties of the text functions\<close>

lemma is_space_lower_char: "is_space (lower_char c) = is_space c"
  by (simp add: is_space_def lower_char_def Let_def)

lemma of_char_lower_char:
  "(of_char (lower_char c) :: nat) = (let n = (of_char c :: nat) in
     if (65 \<le> n \<and> n \<le> 90) \<or> (192 \<le> n \<and> n \<le> 222 \<and> n \<noteq> 215) then n + 32 else n)"
  by (auto simp add: lower_char_def Let_def)

lemma lower_char_eq_equals: "lower_char c = CHR ''='' \<longleftrightarrow> c = CHR ''=''"
proof -
  have "lower_char c = CHR ''='' \<longleftrightarrow> (of_char (lower_char c) :: nat) = of_char CHR ''=''"
    by (simp only: of_char_eq_iff)
  also have "\<dots> \<longleftrightarrow> (of_char c :: nat) = of_char CHR ''=''"
    by (auto simp: of_char_lower_char Let_def)
  also have "\<dots> \<longleftrightarrow> c = CHR ''=''"
    by (simp only: of_char_eq_iff)
  finally show ?thesis .
qed

lemma length_lower [simp]: "length (lower s) = length s"
  by (simp add: lower_def)

lemma equals_in_lower: "CHR ''='' \<in> set (lower s) \<longleftrightarrow> CHR ''='' \<in> set s"
  unfolding lower_def set_map image_iff by (metis lower_char_eq_equals)

lemma not_space_equals [simp]: "\<not> is_space CHR ''=''"
  by (simp add: is_space_def)

lemma not_space_hash [simp]: "\<not> is_space CHR ''#''"
  by (simp add: is_space_def)

lemma lstrip_id: "s = [] \<or> \<not> is_space (hd s) \<Longrightarrow> lstrip s = s"
  by (cases s) (auto simp: lstrip_def)

lemma rstrip_id: "s = [] \<or> \<not> is_space (last s) \<Longrightarrow> rstrip s = s"
  by (cases s rule: rev_cases) (auto simp: rstrip_def)

lemma lstrip_hd: "lstrip s \<noteq> [] \<Longrightarrow> \<not> is_space (hd (lstrip s))"
  unfolding lstrip_def by (rule hd_dropWhile)

lemma rstrip_last: "rstrip s \<noteq> [] \<Longrightarrow> \<not> is_space (last (rstrip s))"
  unfolding rstrip_def using hd_dropWhile [of is_space "rev s"] by (simp add: last_rev)

lemma rstrip_Cons: "\<not> is_space c \<Longrightarrow> rstrip (c # s) = c # rstrip s"
  by (simp add: rstrip_def dropWhile_append3)

lemma rstrip_append_Cons: "\<not> is_space c \<Longrightarrow> rstrip (xs @ c # s) = xs @ c # rstrip s"
  by (simp add: rstrip_def dropWhile_append3)

lemma strip_hd: "strip s \<noteq> [] \<Longrightarrow> \<not> is_space (hd (strip s))"
proof -
  assume ne: "strip s \<noteq> []"
  then have "lstrip s \<noteq> []" by (auto simp: strip_def rstrip_def)
  then obtain c cs where l: "lstrip s = c # cs" and c: "\<not> is_space c"
    using lstrip_hd [of s] by (cases "lstrip s") auto
  then show ?thesis by (simp add: strip_def rstrip_Cons)
qed

lemma strip_last: "strip s \<noteq> [] \<Longrightarrow> \<not> is_space (last (strip s))"
  unfolding strip_def by (rule rstrip_last)

lemma strip_id: "s = [] \<or> (\<not> is_space (hd s) \<and> \<not> is_space (last s)) \<Longrightarrow> strip s = s"
  by (auto simp: strip_def lstrip_id rstrip_id)

lemma strip_idem: "strip (strip s) = strip s"
  using strip_hd [of s] strip_last [of s] by (intro strip_id) auto

lemma set_strip: "set (strip s) \<subseteq> set s"
proof -
  have "set (rstrip t) \<subseteq> set t" for t
    using set_dropWhileD [of _ is_space "rev t"] by (auto simp: rstrip_def)
  moreover have "set (lstrip t) \<subseteq> set t" for t
    using set_dropWhileD [of _ is_space t] by (auto simp: lstrip_def)
  ultimately show ?thesis unfolding strip_def by blast
qed

section \<open>Properties of the config rewriter\<close>

lemma set_cfg_loop_eq:
  "set_cfg_loop (lower key) val lines (out, found) =
     (out @ map (rewrite key val) lines, found \<or> list_ex (matches key) lines)"
proof (induction lines arbitrary: out found)
  case Nil
  then show ?case by simp
next
  case (Cons line lines)
  show ?case
    by (simp add: Cons.IH Let_def rewrite_def matches_def editable_def line_key_def
        split: prod.splits)
qed

lemma set_cfg_value_eq:
  "set_cfg_value lines key val =
     map (rewrite key val) lines @ (if list_ex (matches key) lines then [] else [key @ ''='' @ val])"
  by (simp add: set_cfg_value_def set_cfg_loop_eq)

lemma strip_key_line:
  assumes "clean_key k"
  shows "strip (k @ CHR ''='' # v) = k @ CHR ''='' # rstrip v"
proof -
  have "lstrip (k @ CHR ''='' # v) = k @ CHR ''='' # v"
  proof (cases k)
    case Nil then show ?thesis by (simp add: lstrip_def)
  next
    case (Cons c cs)
    with assms have "\<not> is_space (hd k)" using strip_hd [of k] by (simp add: clean_key_def)
    with Cons show ?thesis by (simp add: lstrip_def)
  qed
  then show ?thesis by (simp add: strip_def rstrip_append_Cons)
qed

lemma editable_key_line:
  assumes "clean_key k"
  shows "editable (k @ CHR ''='' # v)" and "line_key (k @ CHR ''='' # v) = k"
proof -
  have s: "strip (k @ CHR ''='' # v) = k @ CHR ''='' # rstrip v" by (rule strip_key_line [OF assms])
  have "\<not> startswith (k @ CHR ''='' # rstrip v) ''#''"
    using assms by (cases k) (auto simp: clean_key_def startswith_def)
  then show "editable (k @ CHR ''='' # v)" by (simp add: editable_def s)
  have "takeWhile (\<lambda>c. c \<noteq> CHR ''='') (k @ CHR ''='' # rstrip v) = k"
    using assms by (intro takeWhile_tail [THEN trans]) (auto simp: clean_key_def)
  then show "line_key (k @ CHR ''='' # v) = k"
    using assms by (simp add: line_key_def s split_once_def clean_key_def)
qed

lemma clean_line_key:
  assumes "editable l"
  shows "clean_key (line_key l)"
proof -
  define s where "s = strip l"
  define k where "k = takeWhile (\<lambda>c. c \<noteq> CHR ''='') s"
  have lk: "line_key l = strip k" by (simp add: line_key_def split_once_def s_def k_def)
  from assms have ne: "s \<noteq> []" and nh: "\<not> startswith s ''#''"
    by (simp_all add: editable_def s_def)
  have "CHR ''='' \<notin> set k" using set_takeWhileD [of "CHR ''=''" _ s] by (auto simp: k_def)
  then have a: "CHR ''='' \<notin> set (strip k)" using set_strip [of k] by blast
  have b: "\<not> startswith (strip k) ''#''"
  proof (cases k)
    case Nil then show ?thesis by (simp add: strip_def lstrip_def rstrip_def startswith_def)
  next
    case (Cons c cs)
    then have "hd s = c" using ne by (cases s) (auto simp: k_def split: if_splits)
    moreover have "\<not> is_space (hd s)" using strip_hd [of l] ne by (simp add: s_def)
    moreover have "hd s \<noteq> CHR ''#''" using nh ne by (cases s) (auto simp: startswith_def)
    ultimately show ?thesis using Cons
      by (simp add: strip_def lstrip_def rstrip_Cons startswith_def)
  qed
  show ?thesis unfolding lk clean_key_def using a b strip_idem by simp
qed

lemma matches_rewritten:
  assumes "matches key l"
  shows "matches key (line_key l @ CHR ''='' # v)" and "line_key (line_key l @ CHR ''='' # v) = line_key l"
  using assms editable_key_line [OF clean_line_key, of l v] by (simp_all add: matches_def)

lemma rewrite_rewrite: "rewrite key v (rewrite key v l) = rewrite key v l"
  using matches_rewritten [of key l v] by (simp add: rewrite_def)

lemma matches_rewrite: "matches key (rewrite key v l) \<longleftrightarrow> matches key l"
  using matches_rewritten [of key l v] by (simp add: rewrite_def)

lemma list_ex_matches_rewrite:
  "list_ex (matches key) (map (rewrite key v) lines) \<longleftrightarrow> list_ex (matches key) lines"
  by (induction lines) (simp_all add: matches_rewrite)

lemma rewrite_no_match: "\<not> list_ex (matches key) lines \<Longrightarrow> map (rewrite key v) lines = lines"
  by (induction lines) (simp_all add: rewrite_def)

lemma matches_appended: "clean_key key \<Longrightarrow> matches key (key @ CHR ''='' # v)"
  using editable_key_line [of key v] by (simp add: matches_def)

lemma rewrite_appended: "clean_key key \<Longrightarrow> rewrite key v (key @ CHR ''='' # v) = key @ CHR ''='' # v"
  using editable_key_line [of key v] by (simp add: rewrite_def)

lemma set_cfg_value_idem:
  assumes "clean_key key \<or> list_ex (matches key) lines"
  shows "set_cfg_value (set_cfg_value lines key v) key v = set_cfg_value lines key v"
proof (cases "list_ex (matches key) lines")
  case True
  then show ?thesis
    by (simp add: set_cfg_value_eq list_ex_matches_rewrite rewrite_rewrite)
next
  case False
  with assms have c: "clean_key key" by simp
  from False show ?thesis
    by (simp add: set_cfg_value_eq rewrite_no_match matches_appended [OF c] rewrite_appended [OF c])
qed

lemma not_comment_matches: "matches key l \<Longrightarrow> \<not> is_comment l"
  by (simp add: matches_def editable_def is_comment_def)

lemma first_match_wins_no_match:
  "\<not> list_ex (matches key) lines \<Longrightarrow> first_match_wins key v lines = lines @ [key @ ''='' @ v]"
  by (induction lines) simp_all

lemma first_match_wins_single:
  "length (filter (matches key) lines) \<le> 1 \<Longrightarrow>
   first_match_wins key v lines =
     map (rewrite key v) lines @ (if list_ex (matches key) lines then [] else [key @ ''='' @ v])"
proof (induction lines)
  case Nil
  then show ?case by simp
next
  case (Cons l lines)
  show ?case
  proof (cases "matches key l")
    case True
    with Cons.prems have "filter (matches key) lines = []" by simp
    then have "\<not> list_ex (matches key) lines"
      by (simp add: filter_empty_conv list_ex_iff)
    with True show ?thesis by (simp add: rewrite_no_match) (simp add: rewrite_def)
  next
    case False
    with Cons show ?thesis by (simp add: rewrite_def)
  qed
qed

text \<open>
  Claim C1, as the code has it. The key is compared case-insensitively with the stripped
  text before the first equals sign of every line that is neither blank nor a comment.
  \<^emph>\<open>Every\<close> matching line is rewritten to \<open>k=value\<close>, where \<open>k\<close> is the key as the
  line spells it; all other lines are kept verbatim and in place; the line
  \<open>key=value\<close> is appended at the end exactly when no line matches. Rewriting only the
  first matching line gives the same result whenever at most one line matches.
\<close>

theorem set_cfg_value_rewrites_every_match:
  "set_cfg_value lines key val =
     map (rewrite key val) lines @ (if list_ex (matches key) lines then [] else [key @ ''='' @ val])
   \<and> (length (filter (matches key) lines) \<le> 1 \<longrightarrow>
        set_cfg_value lines key val = first_match_wins key val lines)"
  by (simp add: set_cfg_value_eq first_match_wins_single)

theorem set_cfg_value_rewrites_every_match_witness:
  "length (filter (matches ''a'') [''# c'', '' A = 2'', ''b=3'']) \<le> 1
   \<and> set_cfg_value [''# c'', '' A = 2'', ''b=3''] ''a'' ''9'' = [''# c'', ''A=9'', ''b=3'']
   \<and> set_cfg_value [''# c'', ''b=3''] ''a'' ''9'' = [''# c'', ''b=3'', ''a=9'']"
proof -
  have h: "length (filter (matches ''a'') [''# c'', '' A = 2'', ''b=3'']) \<le> 1"
    by code_simp
  have f: "first_match_wins ''a'' ''9'' [''# c'', '' A = 2'', ''b=3''] = [''# c'', ''A=9'', ''b=3'']"
    by code_simp
  have g: "map (rewrite ''a'' ''9'') [''# c'', ''b=3'']
             @ (if list_ex (matches ''a'') [''# c'', ''b=3''] then [] else [''a'' @ ''='' @ ''9''])
           = [''# c'', ''b=3'', ''a=9'']"
    by code_simp
  note t1 = set_cfg_value_rewrites_every_match [of "[''# c'', '' A = 2'', ''b=3'']" "''a''" "''9''"]
  note t2 = set_cfg_value_rewrites_every_match [of "[''# c'', ''b=3'']" "''a''" "''9''"]
  from t1 h f
  have 1: "set_cfg_value [''# c'', '' A = 2'', ''b=3''] ''a'' ''9'' = [''# c'', ''A=9'', ''b=3'']"
    by metis
  from t2 g
  have 2: "set_cfg_value [''# c'', ''b=3''] ''a'' ''9'' = [''# c'', ''b=3'', ''a=9'']"
    by metis
  from h 1 2 show ?thesis by blast
qed

text \<open>
  Claim C1 as stated ("first match wins") fails on the code: with two lines for the same
  key the code rewrites both, where the stated behaviour keeps the second.
\<close>

theorem set_cfg_value_first_match_counterexample:
  "set_cfg_value [''a=1'', ''a=2''] ''a'' ''9'' = [''a=9'', ''a=9'']
   \<and> first_match_wins ''a'' ''9'' [''a=1'', ''a=2''] = [''a=9'', ''a=2'']
   \<and> set_cfg_value [''a=1'', ''a=2''] ''a'' ''9'' \<noteq> first_match_wins ''a'' ''9'' [''a=1'', ''a=2'']"
  by code_simp

lemma set_cfg_value_found_length:
  "list_ex (matches key) lines \<Longrightarrow> length (set_cfg_value lines key v) = length lines"
  by (simp add: set_cfg_value_eq)

lemma set_cfg_value_comment_kept:
  "i < length lines \<Longrightarrow> is_comment (lines ! i) \<Longrightarrow> set_cfg_value lines key v ! i = lines ! i"
  using not_comment_matches [of key "lines ! i"]
  by (auto simp add: set_cfg_value_eq nth_append rewrite_def)

text \<open>
  Claim C4, as the code has it. Rewriting twice with the same key and value is the same as
  rewriting once whenever some line already matches the key, or the key is one the
  rewriter finds again in the line it appended: a key without surrounding white space,
  without an equals sign and not starting with \<open>#\<close> (the script only passes the keys
  \<open>output\<close> and \<open>seed\<close>). When a line matches the key, the output has as many lines
  as the input and every comment line stays unchanged at its position.
\<close>

theorem set_cfg_value_idempotent_clean_key:
  "(clean_key key \<or> list_ex (matches key) lines \<longrightarrow>
      set_cfg_value (set_cfg_value lines key val) key val = set_cfg_value lines key val)
   \<and> (list_ex (matches key) lines \<longrightarrow>
        length (set_cfg_value lines key val) = length lines
        \<and> (\<forall>i < length lines. is_comment (lines ! i) \<longrightarrow>
              set_cfg_value lines key val ! i = lines ! i))"
  using set_cfg_value_idem [of key lines val] set_cfg_value_found_length [of key lines val]
    set_cfg_value_comment_kept [of _ lines key val]
  by blast

theorem set_cfg_value_idempotent_clean_key_witness:
  "clean_key ''seed'' \<and> list_ex (matches ''seed'') [''# rng'', ''Seed = 1'']
   \<and> is_comment ([''# rng'', ''Seed = 1''] ! 0)
   \<and> set_cfg_value (set_cfg_value [''# rng'', ''Seed = 1''] ''seed'' ''7'') ''seed'' ''7''
       = set_cfg_value [''# rng'', ''Seed = 1''] ''seed'' ''7''
   \<and> length (set_cfg_value [''# rng'', ''Seed = 1''] ''seed'' ''7'') = 2
   \<and> set_cfg_value [''# rng'', ''Seed = 1''] ''seed'' ''7'' ! 0 = ''# rng''
   \<and> set_cfg_value (set_cfg_value [''m=3''] ''seed'' ''7'') ''seed'' ''7''
       = set_cfg_value [''m=3''] ''seed'' ''7''"
proof -
  have h1: "clean_key ''seed''" by code_simp
  have h2: "list_ex (matches ''seed'') [''# rng'', ''Seed = 1'']" by code_simp
  have h3: "is_comment ([''# rng'', ''Seed = 1''] ! 0)" by code_simp
  note t1 = set_cfg_value_idempotent_clean_key [of "''seed''" "[''# rng'', ''Seed = 1'']" "''7''"]
  note t2 = set_cfg_value_idempotent_clean_key [of "''seed''" "[''m=3'']" "''7''"]
  have l: "length [''# rng'', ''Seed = 1''] = 2" and z: "(0::nat) < length [''# rng'', ''Seed = 1'']"
    and n: "[''# rng'', ''Seed = 1''] ! 0 = ''# rng''"
    by simp_all
  from t1 h2 have a: "set_cfg_value (set_cfg_value [''# rng'', ''Seed = 1''] ''seed'' ''7'') ''seed'' ''7''
       = set_cfg_value [''# rng'', ''Seed = 1''] ''seed'' ''7''" by blast
  from t1 h2 l have b: "length (set_cfg_value [''# rng'', ''Seed = 1''] ''seed'' ''7'') = 2"
    by metis
  from t1 h2 h3 z n have c: "set_cfg_value [''# rng'', ''Seed = 1''] ''seed'' ''7'' ! 0 = ''# rng''"
    by metis
  from t2 h1 have d: "set_cfg_value (set_cfg_value [''m=3''] ''seed'' ''7'') ''seed'' ''7''
       = set_cfg_value [''m=3''] ''seed'' ''7''" by blast
  from h1 h2 h3 a b c d show ?thesis by blast
qed

text \<open>
  Claim C4 as stated (idempotent for every key) fails on the code: a key with a trailing
  blank is never found again, because the rewriter strips the key of a line before
  comparing it but does not strip the key it is given, so each call appends one more line.
\<close>

theorem set_cfg_value_idempotent_counterexample:
  "set_cfg_value [] ''seed '' ''7'' = [''seed =7'']
   \<and> set_cfg_value (set_cfg_value [] ''seed '' ''7'') ''seed '' ''7'' = [''seed =7'', ''seed =7'']
   \<and> set_cfg_value (set_cfg_value [] ''seed '' ''7'') ''seed '' ''7''
       \<noteq> set_cfg_value [] ''seed '' ''7''"
  by code_simp

section \<open>Properties of reading and writing config files\<close>


lemma linebreak_LF [simp]: "is_linebreak LF"
  by (simp add: is_linebreak_def)

lemma linebreak_CR [simp]: "is_linebreak CR"
  by (simp add: is_linebreak_def)

lemma join_Cons: "join sep (x # xs) = (if xs = [] then x else x @ sep @ join sep xs)"
  by (cases xs) simp_all










section \<open>Properties of the statistics\<close>





section \<open>Properties of the result reader\<close>

lemma read_fitness_loop_result:
  "read_fitness_loop fl rows (fv, t) = Inr (fv', t') \<Longrightarrow>
     map Some fv' = map Some fv @ map (fl \<circ> field ''fitness'') (filter usable rows)
     \<and> t' = (case t of Some x \<Rightarrow> Some x
              | None \<Rightarrow> (case filter usable rows of [] \<Rightarrow> None
                          | r # rs \<Rightarrow> fl (field ''eval_time_ms'' r)))"
proof (induction rows arbitrary: fv t)
  case Nil
  then show ?case by (auto split: option.splits)
next
  case (Cons row rows)
  show ?case
  proof (cases "usable row")
    case False
    then have "read_fitness_loop fl (row # rows) (fv, t) = read_fitness_loop fl rows (fv, t)"
      by (auto simp: usable_def split: option.splits)
    with Cons.prems have "read_fitness_loop fl rows (fv, t) = Inr (fv', t')" by simp
    from Cons.IH [OF this] False show ?thesis by (simp split: option.splits)
  next
    case True
    then obtain s where s: "row ''fitness'' = Some (Some s)" "strip s \<noteq> []"
      by (auto simp: usable_def split: option.splits)
    with Cons.prems obtain x where x: "fl s = Some x"
      by (cases "fl s") auto
    show ?thesis
    proof (cases t)
      case (Some t0)
      with s x Cons.prems have "read_fitness_loop fl rows (fv @ [x], Some t0) = Inr (fv', t')"
        by simp
      from Cons.IH [OF this] True s x Some show ?thesis by (simp add: field_def)
    next
      case None
      with s x Cons.prems obtain u y where u: "row ''eval_time_ms'' = Some (Some u)" "fl u = Some y"
        by (auto split: option.splits)
      with s x None Cons.prems have "read_fitness_loop fl rows (fv @ [x], Some y) = Inr (fv', t')"
        by simp
      from Cons.IH [OF this] True s x u None show ?thesis by (simp add: field_def)
    qed
  qed
qed

lemma read_fitness_loop_none_usable:
  "filter usable rows = [] \<Longrightarrow> read_fitness_loop fl rows (fv, t) = Inr (fv, t)"
proof (induction rows)
  case Nil
  then show ?case by simp
next
  case (Cons row rows)
  then have n: "\<not> usable row" and "filter usable rows = []" by (auto split: if_splits)
  then have "read_fitness_loop fl rows (fv, t) = Inr (fv, t)" using Cons.IH by simp
  moreover from n have "read_fitness_loop fl (row # rows) (fv, t) = read_fitness_loop fl rows (fv, t)"
    by (auto simp: usable_def split: option.splits)
  ultimately show ?case by simp
qed

lemma read_fitness_rows_result:
  assumes "read_fitness_rows fl rows = Inr (fv, t)"
  shows "map Some fv = map (fl \<circ> field ''fitness'') (filter usable (dict_rows rows))"
    and "filter usable (dict_rows rows) \<noteq> []"
    and "Some t = fl (field ''eval_time_ms'' (hd (filter usable (dict_rows rows))))"
    and "length fv = length (filter usable (dict_rows rows))"
proof -
  from assms obtain fv0 t0 where l: "read_fitness_loop fl (dict_rows rows) ([], None) = Inr (fv0, t0)"
    by (auto simp: read_fitness_rows_def Let_def split: if_splits sum.splits)
  with assms have e: "fv0 = fv" "t0 = Some t"
    by (auto simp: read_fitness_rows_def Let_def split: if_splits sum.splits option.splits)
  note r = read_fitness_loop_result [OF l, unfolded e]
  from r show 1: "map Some fv = map (fl \<circ> field ''fitness'') (filter usable (dict_rows rows))" by simp
  from r show 2: "filter usable (dict_rows rows) \<noteq> []" by (auto split: list.splits)
  from r 2 show "Some t = fl (field ''eval_time_ms'' (hd (filter usable (dict_rows rows))))"
    by (cases "filter usable (dict_rows rows)") auto
  from 1 show "length fv = length (filter usable (dict_rows rows))"
    using length_map by metis
qed

lemma read_fitness_loop_skips:
  "read_fitness_loop fl rows (fv, t) = read_fitness_loop fl (filter usable rows) (fv, t)"
proof (induction rows arbitrary: fv t)
  case Nil
  show ?case by simp
next
  case (Cons row rows)
  show ?case
  proof (cases "usable row")
    case False
    then have "read_fitness_loop fl (row # rows) (fv, t) = read_fitness_loop fl rows (fv, t)"
      by (auto simp: usable_def split: option.splits)
    with False Cons.IH [of fv t] show ?thesis by simp
  next
    case True
    then obtain s where s: "row ''fitness'' = Some (Some s)" "strip s \<noteq> []"
      by (auto simp: usable_def split: option.splits)
    from True have f: "filter usable (row # rows) = row # filter usable rows" by simp
    show ?thesis unfolding f using s Cons.IH
      by (simp split: option.splits)
  qed
qed

lemma read_fitness_loop_time_known:
  "\<forall>r \<in> set rows. usable r \<Longrightarrow> map Some vs = map (fl \<circ> field ''fitness'') rows \<Longrightarrow>
   read_fitness_loop fl rows (fv, Some t0) = Inr (fv @ vs, Some t0)"
proof (induction rows arbitrary: fv vs)
  case Nil
  then show ?case by simp
next
  case (Cons row rows)
  then obtain s where s: "row ''fitness'' = Some (Some s)" "strip s \<noteq> []"
    by (auto simp: usable_def split: option.splits)
  from Cons.prems(2) obtain x vs' where v: "vs = x # vs'" "fl (field ''fitness'' row) = Some x"
      "map Some vs' = map (fl \<circ> field ''fitness'') rows"
    by (cases vs) auto
  from v(2) s have x: "fl s = Some x" by (simp add: field_def)
  from Cons.prems(1) have "\<forall>r \<in> set rows. usable r" by simp
  from Cons.IH [OF this v(3), of "fv @ [x]"] s x v(1) show ?case by simp
qed

lemma read_fitness_loop_returns:
  assumes kept: "filter usable rows = r # rs"
    and vals: "map Some vs = map (fl \<circ> field ''fitness'') (r # rs)"
    and time: "r ''eval_time_ms'' = Some (Some u)" "fl u = Some t"
  shows "read_fitness_loop fl rows ([], None) = Inr (vs, Some t)"
proof -
  have "\<forall>q \<in> set (filter usable rows). usable q" by simp
  then have all: "\<forall>q \<in> set (r # rs). usable q" unfolding kept .
  then obtain s where s: "r ''fitness'' = Some (Some s)" "strip s \<noteq> []"
    by (auto simp: usable_def split: option.splits)
  from vals obtain x vs' where v: "vs = x # vs'" "fl (field ''fitness'' r) = Some x"
      "map Some vs' = map (fl \<circ> field ''fitness'') rs"
    by (cases vs) auto
  from v(2) s have x: "fl s = Some x" by (simp add: field_def)
  from all have "\<forall>q \<in> set rs. usable q" by simp
  from read_fitness_loop_time_known [OF this v(3), of "[x]" t]
  have "read_fitness_loop fl rs ([x], Some t) = Inr (x # vs', Some t)" by simp
  with s x time v(1) have "read_fitness_loop fl (r # rs) ([], None) = Inr (vs, Some t)"
    by simp
  then show ?thesis
    using read_fitness_loop_skips [of fl rows "[]" None] kept by simp
qed

lemma read_fitness_loop_first_time:
  "read_fitness_loop fl rows (fv, None) = Inr (fv', Some t) \<Longrightarrow>
   \<exists>u. hd (filter usable rows) ''eval_time_ms'' = Some (Some u) \<and> fl u = Some t"
proof (induction rows)
  case Nil
  then show ?case by simp
next
  case (Cons row rows)
  show ?case
  proof (cases "usable row")
    case False
    then have "read_fitness_loop fl (row # rows) (fv, None) = read_fitness_loop fl rows (fv, None)"
      by (auto simp: usable_def split: option.splits)
    with Cons False show ?thesis by simp
  next
    case True
    then obtain s where s: "row ''fitness'' = Some (Some s)" "strip s \<noteq> []"
      by (auto simp: usable_def split: option.splits)
    with Cons.prems obtain x where x: "fl s = Some x"
      by (cases "fl s") auto
    with s Cons.prems obtain u y where u: "row ''eval_time_ms'' = Some (Some u)" "fl u = Some y"
      by (auto split: option.splits)
    with s x Cons.prems have "read_fitness_loop fl rows (fv @ [x], Some y) = Inr (fv', Some t)"
      by simp
    from read_fitness_loop_result [OF this] have "y = t" by simp
    with u True show ?thesis by simp
  qed
qed

lemma read_fitness_rows_iff:
  "read_fitness_rows fl rows = Inr (fv, t) \<longleftrightarrow>
     ''fitness'' \<in> set (fieldnames rows) \<and> ''eval_time_ms'' \<in> set (fieldnames rows)
     \<and> filter usable (dict_rows rows) \<noteq> []
     \<and> map Some fv = map (fl \<circ> field ''fitness'') (filter usable (dict_rows rows))
     \<and> (\<exists>u. hd (filter usable (dict_rows rows)) ''eval_time_ms'' = Some (Some u) \<and> fl u = Some t)"
  (is "?L \<longleftrightarrow> ?R")
proof
  assume l: ?L
  then have h: "''fitness'' \<in> set (fieldnames rows)" "''eval_time_ms'' \<in> set (fieldnames rows)"
    by (auto simp: read_fitness_rows_def Let_def split: if_splits)
  from l h have "read_fitness_loop fl (dict_rows rows) ([], None) = Inr (fv, Some t)"
    by (auto simp: read_fitness_rows_def Let_def split: sum.splits option.splits)
  from read_fitness_loop_first_time [OF this] read_fitness_rows_result [OF l] h
  show ?R by blast
next
  assume r: ?R
  then obtain q qs where k: "filter usable (dict_rows rows) = q # qs"
    by (cases "filter usable (dict_rows rows)") auto
  with r obtain u where u: "q ''eval_time_ms'' = Some (Some u)" "fl u = Some t" by auto
  from r k have "map Some fv = map (fl \<circ> field ''fitness'') (q # qs)" by simp
  from read_fitness_loop_returns [OF k this u] r
  show ?L by (simp add: read_fitness_rows_def)
qed

lemma length_dict_rows: "length (dict_rows rows) \<le> length rows - 1"
  by (cases rows) (auto simp: dict_rows_def)

lemma length_filter_dict_rows: "length (filter usable (dict_rows rows)) \<le> length (dict_rows rows)"
  by simp

text \<open>
  Claim C9. \<^verbatim>\<open>read_fitness_csv\<close> skips every data row whose \<open>fitness\<close> field is missing
  or blank: the loop gives the same result on the data rows as on the rows that have a
  fitness field with text in it, so a skipped row adds no fitness value, sets no time and
  raises nothing. With both columns in the header, the reader returns exactly when there
  is such a row, each of them has a fitness that \<^verbatim>\<open>float\<close> accepts, and so does the
  \<open>eval_time_ms\<close> field of the first of them; it returns the fitness values of these
  rows, in order, and the time of the first. So the list of fitness values can be shorter
  than the number of data rows of the file.
\<close>

theorem read_fitness_csv_skips_blank_fitness:
  "(fs csv_path = Some text \<longrightarrow>
      (read_fitness_csv lb csv_path fs = Inr (fitness_values, eval_time_ms)
       \<longleftrightarrow>
         ''fitness'' \<in> set (fieldnames (csv_reader lb text))
         \<and> ''eval_time_ms'' \<in> set (fieldnames (csv_reader lb text))
         \<and> filter usable (dict_rows (csv_reader lb text)) \<noteq> []
         \<and> map Some fitness_values
              = map (float_of lb \<circ> field ''fitness'') (filter usable (dict_rows (csv_reader lb text)))
         \<and> (\<exists>u. hd (filter usable (dict_rows (csv_reader lb text))) ''eval_time_ms'' = Some (Some u)
                \<and> float_of lb u = Some eval_time_ms)))
   \<and> read_fitness_loop fl rows (fv, t) = read_fitness_loop fl (filter usable rows) (fv, t)
   \<and> (fs csv_path = Some text
        \<and> read_fitness_csv lb csv_path fs = Inr (fitness_values, eval_time_ms)
      \<longrightarrow> length fitness_values = length (filter usable (dict_rows (csv_reader lb text)))
          \<and> length fitness_values \<le> length (dict_rows (csv_reader lb text)))"
proof (intro conjI impI)
  assume "fs csv_path = Some text"
  then show "read_fitness_csv lb csv_path fs = Inr (fitness_values, eval_time_ms)
       \<longleftrightarrow>
         ''fitness'' \<in> set (fieldnames (csv_reader lb text))
         \<and> ''eval_time_ms'' \<in> set (fieldnames (csv_reader lb text))
         \<and> filter usable (dict_rows (csv_reader lb text)) \<noteq> []
         \<and> map Some fitness_values
              = map (float_of lb \<circ> field ''fitness'') (filter usable (dict_rows (csv_reader lb text)))
         \<and> (\<exists>u. hd (filter usable (dict_rows (csv_reader lb text))) ''eval_time_ms'' = Some (Some u)
                \<and> float_of lb u = Some eval_time_ms)"
    using read_fitness_rows_iff [of "float_of lb" "csv_reader lb text" fitness_values eval_time_ms]
    by (simp add: read_fitness_csv_def)
next
  show "read_fitness_loop fl rows (fv, t) = read_fitness_loop fl (filter usable rows) (fv, t)"
    by (rule read_fitness_loop_skips)
next
  assume a: "fs csv_path = Some text
        \<and> read_fitness_csv lb csv_path fs = Inr (fitness_values, eval_time_ms)"
  then have r: "read_fitness_rows (float_of lb) (csv_reader lb text) = Inr (fitness_values, eval_time_ms)"
    by (auto simp add: read_fitness_csv_def)
  from read_fitness_rows_result(4) [OF r]
  show "length fitness_values = length (filter usable (dict_rows (csv_reader lb text)))" .
  then show "length fitness_values \<le> length (dict_rows (csv_reader lb text))"
    using length_filter_dict_rows [of "csv_reader lb text"] by simp
qed

theorem read_fitness_csv_skips_blank_fitness_witness:
  "(no_files(''run_0_fitness.csv'' \<mapsto> gaps_in_fitness)) ''run_0_fitness.csv'' = Some gaps_in_fitness
   \<and> csv_reader plain_lib gaps_in_fitness
       = [[''experiment'', ''fitness'', ''eval_time_ms''], [''0''], [''1'', [], ''9.0''],
          [''2'', ''2.0'', ''5.0''], [''3'', ''3.0'', ''6.0'']]
   \<and> length (dict_rows (csv_reader plain_lib gaps_in_fitness)) = 4
   \<and> length (filter usable (dict_rows (csv_reader plain_lib gaps_in_fitness))) = 2
   \<and> read_fitness_csv plain_lib ''run_0_fitness.csv'' (no_files(''run_0_fitness.csv'' \<mapsto> gaps_in_fitness))
       = Inr ([2, 3], 5)"
proof -
  have h1: "(no_files(''run_0_fitness.csv'' \<mapsto> gaps_in_fitness)) ''run_0_fitness.csv'' = Some gaps_in_fitness"
    by simp
  have h2: "csv_reader plain_lib gaps_in_fitness
       = [[''experiment'', ''fitness'', ''eval_time_ms''], [''0''], [''1'', [], ''9.0''],
          [''2'', ''2.0'', ''5.0''], [''3'', ''3.0'', ''6.0'']]"
    by code_simp
  have h3: "length (dict_rows (csv_reader plain_lib gaps_in_fitness)) = 4"
    by code_simp
  have h4: "length (filter usable (dict_rows (csv_reader plain_lib gaps_in_fitness))) = 2"
    by code_simp
  have c1: "''fitness'' \<in> set (fieldnames (csv_reader plain_lib gaps_in_fitness))"
    and c2: "''eval_time_ms'' \<in> set (fieldnames (csv_reader plain_lib gaps_in_fitness))"
    and c3: "filter usable (dict_rows (csv_reader plain_lib gaps_in_fitness)) \<noteq> []"
    and c4: "map Some [2, 3]
              = map (float_of plain_lib \<circ> field ''fitness'')
                  (filter usable (dict_rows (csv_reader plain_lib gaps_in_fitness)))"
    and c5: "hd (filter usable (dict_rows (csv_reader plain_lib gaps_in_fitness))) ''eval_time_ms''
               = Some (Some ''5.0'') \<and> float_of plain_lib ''5.0'' = Some 5"
    by code_simp+
  from c5 have c6: "\<exists>u. hd (filter usable (dict_rows (csv_reader plain_lib gaps_in_fitness))) ''eval_time_ms''
               = Some (Some u) \<and> float_of plain_lib u = Some 5"
    by (rule exI)
  note t = read_fitness_csv_skips_blank_fitness
    [of "no_files(''run_0_fitness.csv'' \<mapsto> gaps_in_fitness)" "''run_0_fitness.csv''"
        gaps_in_fitness plain_lib "[2, 3]" 5, THEN conjunct1, rule_format, OF h1]
  from t c1 c2 c3 c4 c6
  have r: "read_fitness_csv plain_lib ''run_0_fitness.csv'' (no_files(''run_0_fitness.csv'' \<mapsto> gaps_in_fitness))
       = Inr ([2, 3], 5)"
    by (simp only: simp_thms)
  from h1 h2 h3 h4 r show ?thesis by (intro conjI)
qed

section \<open>Properties of the run loop and of the script\<close>

lemma run_once_spawned: "spawned (snd (run_once lb ev a bl bs i s)) = Suc (spawned s)"
  by (simp add: run_once_def Let_def split: prod.splits sum.splits)

lemma run_loop_append:
  "run_loop lb ev a bl bs (xs @ ys) s =
     (case run_loop lb ev a bl bs xs s of
        (Some e, s') \<Rightarrow> (Some e, s')
      | (None, s') \<Rightarrow> run_loop lb ev a bl bs ys s')"
  by (induction xs arbitrary: s) (auto split: prod.splits option.splits)

lemma run_loop_spawned:
  "run_loop lb ev a bl bs ids s = (None, s') \<Longrightarrow> spawned s' = spawned s + length ids"
proof (induction ids arbitrary: s)
  case Nil
  then show ?case by simp
next
  case (Cons i ids)
  then obtain s1 where 1: "run_once lb ev a bl bs i s = (None, s1)"
    and 2: "run_loop lb ev a bl bs ids s1 = (None, s')"
    by (auto split: prod.splits option.splits)
  from 1 have "spawned s1 = Suc (spawned s)" using run_once_spawned [of lb ev a bl bs i s] by simp
  with Cons.IH [OF 2] show ?case by simp
qed

lemma run_loop_stops:
  "run_once lb ev a bl bs i s = (Some e, s') \<Longrightarrow> run_loop lb ev a bl bs (i # ids) s = (Some e, s')"
  by simp

lemma main_raises:
  assumes "fs0 (exe a) \<noteq> None" "fs0 (config a) \<noteq> None" "0 < runs a"
    and "parse_cfg (config a) fs0 = Inr bl"
    and "run_loop lb ev a bl (seed_base ev a) [0..<nat (runs a)] (initial fs0) = (Some e, s1)"
  shows "main lb ev a fs0 = (Raised e, s1\<lparr>files := cleanup (tmpdir ev) (files s1)\<rparr>)"
  using assms by (simp add: main_def Let_def)

lemma main_Returned_0:
  assumes "fst (main lb ev a fs0) = Returned 0"
  shows "\<exists>bl s1 st ts. fs0 (exe a) \<noteq> None \<and> fs0 (config a) \<noteq> None \<and> 0 < runs a
     \<and> parse_cfg (config a) fs0 = Inr bl
     \<and> run_loop lb ev a bl (seed_base ev a) [0..<nat (runs a)] (initial fs0) = (None, s1)
     \<and> analyze (all_values s1) = Inr st
     \<and> analyze_times_from_master lb (master_csv a) (cleanup (tmpdir ev) (files s1)) = Inr ts
     \<and> snd (main lb ev a fs0) = s1\<lparr>files := cleanup (tmpdir ev) (files s1),
           printed := printed s1 @ [FitnessAnalytics st, MasterWritten (master_csv a), RuntimeAnalytics ts]\<rparr>"
  using assms
  by (auto simp add: main_def Let_def split: if_splits sum.splits option.splits prod.splits)

lemma main_success_result:
  assumes "fs0 (exe a) \<noteq> None" "fs0 (config a) \<noteq> None" "0 < runs a"
    and "parse_cfg (config a) fs0 = Inr bl"
    and "run_loop lb ev a bl (seed_base ev a) [0..<nat (runs a)] (initial fs0) = (None, s1)"
    and "analyze (all_values s1) = Inr st"
    and "analyze_times_from_master lb (master_csv a) (cleanup (tmpdir ev) (files s1)) = Inr ts"
  shows "main lb ev a fs0 =
     (Returned 0,
      s1\<lparr>files := cleanup (tmpdir ev) (files s1),
         printed := printed s1
           @ [FitnessAnalytics st, MasterWritten (master_csv a), RuntimeAnalytics ts]\<rparr>)"
  using assms by (simp add: main_def Let_def)

lemma appended_counts_append:
  "appended_counts (xs @ ys) = appended_counts xs @ appended_counts ys"
  by (induction xs rule: appended_counts.induct) simp_all

section \<open>Errors are fatal\<close>

lemma read_fitness_csv_missing_fitness:
  "fs p = Some text \<Longrightarrow> ''fitness'' \<notin> set (fieldnames (csv_reader lb text)) \<Longrightarrow>
   read_fitness_csv lb p fs = Inl (MissingColumn ''fitness'')"
  by (simp add: read_fitness_csv_def read_fitness_rows_def)

lemma read_fitness_csv_missing_time:
  "fs p = Some text \<Longrightarrow> ''fitness'' \<in> set (fieldnames (csv_reader lb text)) \<Longrightarrow>
   ''eval_time_ms'' \<notin> set (fieldnames (csv_reader lb text)) \<Longrightarrow>
   read_fitness_csv lb p fs = Inl (MissingColumn ''eval_time_ms'')"
  by (simp add: read_fitness_csv_def read_fitness_rows_def)

lemma read_fitness_csv_no_rows:
  "fs p = Some text \<Longrightarrow> ''fitness'' \<in> set (fieldnames (csv_reader lb text)) \<Longrightarrow>
   ''eval_time_ms'' \<in> set (fieldnames (csv_reader lb text)) \<Longrightarrow>
   filter usable (dict_rows (csv_reader lb text)) = [] \<Longrightarrow>
   read_fitness_csv lb p fs = Inl NoRowsFound"
  by (simp add: read_fitness_csv_def read_fitness_rows_def read_fitness_loop_none_usable)

lemma run_program_exit:
  "program ev [ex, cp] t n fs = (Exited code, fs') \<Longrightarrow>
   run_program ev ex cp t n fs = (if code \<noteq> 0 then Inl (ProgramFailed code) else Inr (), fs')"
  by (simp add: run_program_def)

lemma run_program_timeout:
  "program ev [ex, cp] t n fs = (TimedOut, fs') \<Longrightarrow>
   run_program ev ex cp t n fs = (Inl TimeoutExpired, fs')"
  by (simp add: run_program_def)

lemma run_once_program_error:
  "fst (run_program ev (exe a) (tmp_cfg_path ev i) (timeout a) (spawned s)
          (write_cfg (run_lines ev a bl bs i) (tmp_cfg_path ev i) (files s))) = Inl e \<Longrightarrow>
   fst (run_once lb ev a bl bs i s) = Some e"
  by (auto simp add: run_once_def Let_def split: prod.splits)

lemma run_once_reader_error:
  "run_program ev (exe a) (tmp_cfg_path ev i) (timeout a) (spawned s)
          (write_cfg (run_lines ev a bl bs i) (tmp_cfg_path ev i) (files s)) = (Inr u, fs2) \<Longrightarrow>
   read_fitness_csv lb (out_csv_path ev i) fs2 = Inl e \<Longrightarrow>
   fst (run_once lb ev a bl bs i s) = Some e"
  by (simp add: run_once_def Let_def split: prod.splits)

lemma main_stops_at_error:
  assumes "fs0 (exe a) \<noteq> None" "fs0 (config a) \<noteq> None" "parse_cfg (config a) fs0 = Inr bl"
    and k: "k < nat (runs a)"
    and pre: "run_loop lb ev a bl (seed_base ev a) [0..<k] (initial fs0) = (None, sk)"
    and err: "fst (run_once lb ev a bl (seed_base ev a) k sk) = Some e"
  shows "fst (main lb ev a fs0) = Raised e" and "spawned (snd (main lb ev a fs0)) = Suc k"
proof -
  obtain s' where s': "run_once lb ev a bl (seed_base ev a) k sk = (Some e, s')"
    using err by (cases "run_once lb ev a bl (seed_base ev a) k sk") auto
  from k have "[0..<nat (runs a)] = [0..<k] @ [k..<nat (runs a)]"
    using upt_add_eq_append [of 0 k "nat (runs a) - k"] by simp
  with k have "[0..<nat (runs a)] = [0..<k] @ k # [Suc k..<nat (runs a)]"
    by (simp add: upt_conv_Cons)
  then have "run_loop lb ev a bl (seed_base ev a) [0..<nat (runs a)] (initial fs0) = (Some e, s')"
    using pre s' by (simp add: run_loop_append)
  moreover from k have "0 < runs a" by simp
  ultimately have m: "main lb ev a fs0 = (Raised e, s'\<lparr>files := cleanup (tmpdir ev) (files s')\<rparr>)"
    using assms(1-3) by (intro main_raises)
  then show "fst (main lb ev a fs0) = Raised e" by simp
  from run_loop_spawned [OF pre] have "spawned sk = k" by (simp add: initial_def)
  moreover from s' have "spawned s' = Suc (spawned sk)"
    using run_once_spawned [of lb ev a bl "seed_base ev a" k sk] by simp
  ultimately show "spawned (snd (main lb ev a fs0)) = Suc k" using m by simp
qed

text \<open>
  Claim C5. Errors are fatal and not recovered. \<^verbatim>\<open>read_fitness_csv\<close> raises when the
  header lacks the column \<open>fitness\<close>, when it lacks the column \<open>eval_time_ms\<close>, and when
  no data row has a usable fitness field. When the program ends with an exit code,
  \<^verbatim>\<open>run_program\<close> raises exactly when the code is not zero (it also passes on the
  timeout of \<^verbatim>\<open>subprocess.run\<close>, where there is no exit code). An error of either
  function leaves the body of the run loop, and nothing catches it: when run \<open>k\<close> is
  the first to fail with \<open>e\<close>, the script ends by raising \<open>e\<close> after having started
  exactly \<open>k + 1\<close> subprocesses, so no later run is started.
\<close>

theorem errors_are_fatal:
  "(fs p = Some text \<and> ''fitness'' \<notin> set (fieldnames (csv_reader lb text))
      \<longrightarrow> read_fitness_csv lb p fs = Inl (MissingColumn ''fitness''))
   \<and> (fs p = Some text \<and> ''fitness'' \<in> set (fieldnames (csv_reader lb text))
        \<and> ''eval_time_ms'' \<notin> set (fieldnames (csv_reader lb text))
      \<longrightarrow> read_fitness_csv lb p fs = Inl (MissingColumn ''eval_time_ms''))
   \<and> (fs p = Some text \<and> ''fitness'' \<in> set (fieldnames (csv_reader lb text))
        \<and> ''eval_time_ms'' \<in> set (fieldnames (csv_reader lb text))
        \<and> filter usable (dict_rows (csv_reader lb text)) = []
      \<longrightarrow> read_fitness_csv lb p fs = Inl NoRowsFound)
   \<and> (program ev [ex, cp] t n fs = (Exited code, fs')
      \<longrightarrow> ((\<exists>e. fst (run_program ev ex cp t n fs) = Inl e) \<longleftrightarrow> code \<noteq> 0)
          \<and> (code \<noteq> 0 \<longrightarrow> fst (run_program ev ex cp t n fs) = Inl (ProgramFailed code)))
   \<and> (fst (run_program ev (exe a) (tmp_cfg_path ev k) (timeout a) (spawned sk)
              (write_cfg (run_lines ev a bl bs k) (tmp_cfg_path ev k) (files sk))) = Inl e
      \<longrightarrow> fst (run_once lb ev a bl bs k sk) = Some e)
   \<and> (run_program ev (exe a) (tmp_cfg_path ev k) (timeout a) (spawned sk)
          (write_cfg (run_lines ev a bl bs k) (tmp_cfg_path ev k) (files sk)) = (Inr u, fs2)
        \<and> read_fitness_csv lb (out_csv_path ev k) fs2 = Inl e
      \<longrightarrow> fst (run_once lb ev a bl bs k sk) = Some e)
   \<and> (fs0 (exe a) \<noteq> None \<and> fs0 (config a) \<noteq> None \<and> parse_cfg (config a) fs0 = Inr bl
        \<and> k < nat (runs a)
        \<and> run_loop lb ev a bl (seed_base ev a) [0..<k] (initial fs0) = (None, sk)
        \<and> fst (run_once lb ev a bl (seed_base ev a) k sk) = Some e
      \<longrightarrow> fst (main lb ev a fs0) = Raised e \<and> spawned (snd (main lb ev a fs0)) = Suc k)"
proof (intro conjI impI)
  assume "program ev [ex, cp] t n fs = (Exited code, fs')"
  from run_program_exit [OF this]
  show "(\<exists>e. fst (run_program ev ex cp t n fs) = Inl e) \<longleftrightarrow> code \<noteq> 0" by simp
next
  assume "program ev [ex, cp] t n fs = (Exited code, fs')" and "code \<noteq> 0"
  with run_program_exit [of ev ex cp t n fs code fs']
  show "fst (run_program ev ex cp t n fs) = Inl (ProgramFailed code)" by simp
qed (auto intro: read_fitness_csv_missing_fitness read_fitness_csv_missing_time
       read_fitness_csv_no_rows run_once_program_error run_once_reader_error
       main_stops_at_error)

theorem errors_are_fatal_witness:
  "read_fitness_csv plain_lib ''r.csv'' (no_files(''r.csv'' \<mapsto> no_fitness_column))
     = Inl (MissingColumn ''fitness'')
   \<and> read_fitness_csv plain_lib ''r.csv'' (no_files(''r.csv'' \<mapsto> no_time_column))
     = Inl (MissingColumn ''eval_time_ms'')
   \<and> read_fitness_csv plain_lib ''r.csv'' (no_files(''r.csv'' \<mapsto> header_only)) = Inl NoRowsFound
   \<and> fst (run_program second_run_fails ''./project1'' ''run_1.cfg'' 60 1 no_files)
       = Inl (ProgramFailed 3)
   \<and> \<not> (\<exists>e. fst (run_program second_run_fails ''./project1'' ''run_0.cfg'' 60 0 no_files) = Inl e)
   \<and> fst (main plain_lib second_run_fails (bench_args 3) start_files) = Raised (ProgramFailed 3)
   \<and> spawned (snd (main plain_lib second_run_fails (bench_args 3) start_files)) = 2
   \<and> fst (main plain_lib writes_no_rows (bench_args 2) start_files) = Raised NoRowsFound
   \<and> spawned (snd (main plain_lib writes_no_rows (bench_args 2) start_files)) = 1"
proof -
  \<comment> \<open>the reader\<close>
  have f1: "(no_files(''r.csv'' \<mapsto> no_fitness_column)) ''r.csv'' = Some no_fitness_column"
    and f2: "(no_files(''r.csv'' \<mapsto> no_time_column)) ''r.csv'' = Some no_time_column"
    and f3: "(no_files(''r.csv'' \<mapsto> header_only)) ''r.csv'' = Some header_only"
    by simp_all
  have c1: "''fitness'' \<notin> set (fieldnames (csv_reader plain_lib no_fitness_column))"
    by code_simp
  have c2: "''fitness'' \<in> set (fieldnames (csv_reader plain_lib no_time_column))
      \<and> ''eval_time_ms'' \<notin> set (fieldnames (csv_reader plain_lib no_time_column))"
    by code_simp
  have c3: "''fitness'' \<in> set (fieldnames (csv_reader plain_lib header_only))
      \<and> ''eval_time_ms'' \<in> set (fieldnames (csv_reader plain_lib header_only))
      \<and> filter usable (dict_rows (csv_reader plain_lib header_only)) = []"
    by code_simp
  from errors_are_fatal [of "no_files(''r.csv'' \<mapsto> no_fitness_column)" "''r.csv''"
      no_fitness_column plain_lib] f1 c1
  have r1: "read_fitness_csv plain_lib ''r.csv'' (no_files(''r.csv'' \<mapsto> no_fitness_column))
     = Inl (MissingColumn ''fitness'')" by blast
  from errors_are_fatal [of "no_files(''r.csv'' \<mapsto> no_time_column)" "''r.csv''"
      no_time_column plain_lib] f2 c2
  have r2: "read_fitness_csv plain_lib ''r.csv'' (no_files(''r.csv'' \<mapsto> no_time_column))
     = Inl (MissingColumn ''eval_time_ms'')" by blast
  from errors_are_fatal [of "no_files(''r.csv'' \<mapsto> header_only)" "''r.csv''"
      header_only plain_lib] f3 c3
  have r3: "read_fitness_csv plain_lib ''r.csv'' (no_files(''r.csv'' \<mapsto> header_only)) = Inl NoRowsFound"
    by blast
  \<comment> \<open>the process runner\<close>
  have p1: "program second_run_fails [''./project1'', ''run_1.cfg''] 60 1 no_files
      = (Exited 3, snd (program second_run_fails [''./project1'', ''run_1.cfg''] 60 1 no_files))"
    by (simp add: second_run_fails_def fake_env_def fake_program_def)
  have p0: "program second_run_fails [''./project1'', ''run_0.cfg''] 60 0 no_files
      = (Exited 0, snd (program second_run_fails [''./project1'', ''run_0.cfg''] 60 0 no_files))"
    by (simp add: second_run_fails_def fake_env_def fake_program_def)
  from errors_are_fatal [of no_files _ _ _ second_run_fails "''./project1''" "''run_1.cfg''" 60 1 3] p1
  have q1: "fst (run_program second_run_fails ''./project1'' ''run_1.cfg'' 60 1 no_files)
       = Inl (ProgramFailed 3)" by simp
  from errors_are_fatal [of no_files _ _ _ second_run_fails "''./project1''" "''run_0.cfg''" 60 0 0] p0
  have q0: "\<not> (\<exists>e. fst (run_program second_run_fails ''./project1'' ''run_0.cfg'' 60 0 no_files) = Inl e)"
    by simp
  \<comment> \<open>the script: the second of three runs fails\<close>
  have v: "start_files (exe (bench_args 3)) \<noteq> None \<and> start_files (config (bench_args 3)) \<noteq> None
      \<and> parse_cfg (config (bench_args 3)) start_files = Inr [''m=3'', ''seed=1'']
      \<and> 1 < nat (runs (bench_args 3))"
    by code_simp
  define s1 where "s1 = snd (run_loop plain_lib second_run_fails (bench_args 3) [''m=3'', ''seed=1'']
      (seed_base second_run_fails (bench_args 3)) [0..<1] (initial start_files))"
  have "fst (run_loop plain_lib second_run_fails (bench_args 3) [''m=3'', ''seed=1'']
      (seed_base second_run_fails (bench_args 3)) [0..<1] (initial start_files)) = None"
    by code_simp
  then have l: "run_loop plain_lib second_run_fails (bench_args 3) [''m=3'', ''seed=1'']
      (seed_base second_run_fails (bench_args 3)) [0..<1] (initial start_files) = (None, s1)"
    unfolding s1_def by (metis prod.collapse)
  have "fst (run_program second_run_fails (exe (bench_args 3)) (tmp_cfg_path second_run_fails 1)
      (timeout (bench_args 3))
      (spawned (snd (run_loop plain_lib second_run_fails (bench_args 3) [''m=3'', ''seed=1'']
        (seed_base second_run_fails (bench_args 3)) [0..<1] (initial start_files))))
      (write_cfg (run_lines second_run_fails (bench_args 3) [''m=3'', ''seed=1'']
          (seed_base second_run_fails (bench_args 3)) 1)
        (tmp_cfg_path second_run_fails 1)
        (files (snd (run_loop plain_lib second_run_fails (bench_args 3) [''m=3'', ''seed=1'']
          (seed_base second_run_fails (bench_args 3)) [0..<1] (initial start_files))))))
     = Inl (ProgramFailed 3)"
    by code_simp
  then have rp: "fst (run_program second_run_fails (exe (bench_args 3)) (tmp_cfg_path second_run_fails 1)
      (timeout (bench_args 3)) (spawned s1)
      (write_cfg (run_lines second_run_fails (bench_args 3) [''m=3'', ''seed=1'']
          (seed_base second_run_fails (bench_args 3)) 1)
        (tmp_cfg_path second_run_fails 1) (files s1))) = Inl (ProgramFailed 3)"
    unfolding s1_def .
  from errors_are_fatal [of _ _ _ plain_lib second_run_fails _ _ _ _ _ _ "bench_args 3" 1 s1
      "[''m=3'', ''seed=1'']" "seed_base second_run_fails (bench_args 3)" "ProgramFailed 3"] rp
  have o: "fst (run_once plain_lib second_run_fails (bench_args 3) [''m=3'', ''seed=1'']
      (seed_base second_run_fails (bench_args 3)) 1 s1) = Some (ProgramFailed 3)"
    by blast
  from errors_are_fatal [of _ _ _ plain_lib second_run_fails _ _ _ _ _ _ "bench_args 3" 1 s1
      "[''m=3'', ''seed=1'']" _ "ProgramFailed 3" _ _ start_files] v l o
  have m1: "fst (main plain_lib second_run_fails (bench_args 3) start_files) = Raised (ProgramFailed 3)
    \<and> spawned (snd (main plain_lib second_run_fails (bench_args 3) start_files)) = Suc 1"
    by blast
  \<comment> \<open>the script: the result file of the first run has no rows\<close>
  have w: "start_files (exe (bench_args 2)) \<noteq> None \<and> start_files (config (bench_args 2)) \<noteq> None
      \<and> parse_cfg (config (bench_args 2)) start_files = Inr [''m=3'', ''seed=1'']
      \<and> 0 < nat (runs (bench_args 2))"
    by code_simp
  have l0: "run_loop plain_lib writes_no_rows (bench_args 2) [''m=3'', ''seed=1'']
      (seed_base writes_no_rows (bench_args 2)) [0..<0] (initial start_files) = (None, initial start_files)"
    by simp
  define fs2 where "fs2 = snd (run_program writes_no_rows (exe (bench_args 2)) (tmp_cfg_path writes_no_rows 0)
      (timeout (bench_args 2)) (spawned (initial start_files))
      (write_cfg (run_lines writes_no_rows (bench_args 2) [''m=3'', ''seed=1'']
          (seed_base writes_no_rows (bench_args 2)) 0)
        (tmp_cfg_path writes_no_rows 0) (files (initial start_files))))"
  have "fst (run_program writes_no_rows (exe (bench_args 2)) (tmp_cfg_path writes_no_rows 0)
      (timeout (bench_args 2)) (spawned (initial start_files))
      (write_cfg (run_lines writes_no_rows (bench_args 2) [''m=3'', ''seed=1'']
          (seed_base writes_no_rows (bench_args 2)) 0)
        (tmp_cfg_path writes_no_rows 0) (files (initial start_files)))) = Inr ()"
    by code_simp
  then have g: "run_program writes_no_rows (exe (bench_args 2)) (tmp_cfg_path writes_no_rows 0)
      (timeout (bench_args 2)) (spawned (initial start_files))
      (write_cfg (run_lines writes_no_rows (bench_args 2) [''m=3'', ''seed=1'']
          (seed_base writes_no_rows (bench_args 2)) 0)
        (tmp_cfg_path writes_no_rows 0) (files (initial start_files))) = (Inr (), fs2)"
    unfolding fs2_def by (metis prod.collapse)
  have "read_fitness_csv plain_lib (out_csv_path writes_no_rows 0)
     (snd (run_program writes_no_rows (exe (bench_args 2)) (tmp_cfg_path writes_no_rows 0)
      (timeout (bench_args 2)) (spawned (initial start_files))
      (write_cfg (run_lines writes_no_rows (bench_args 2) [''m=3'', ''seed=1'']
          (seed_base writes_no_rows (bench_args 2)) 0)
        (tmp_cfg_path writes_no_rows 0) (files (initial start_files))))) = Inl NoRowsFound"
    by code_simp
  then have h: "read_fitness_csv plain_lib (out_csv_path writes_no_rows 0) fs2 = Inl NoRowsFound"
    unfolding fs2_def .
  note t = errors_are_fatal [of _ _ _ plain_lib writes_no_rows _ _ _ _ _ _ "bench_args 2" 0
      "initial start_files" "[''m=3'', ''seed=1'']" "seed_base writes_no_rows (bench_args 2)"
      NoRowsFound "()" fs2 start_files]
  from t g h have e: "fst (run_once plain_lib writes_no_rows (bench_args 2) [''m=3'', ''seed=1'']
      (seed_base writes_no_rows (bench_args 2)) 0 (initial start_files)) = Some NoRowsFound"
    by blast
  from t w l0 e
  have m2: "fst (main plain_lib writes_no_rows (bench_args 2) start_files) = Raised NoRowsFound
    \<and> spawned (snd (main plain_lib writes_no_rows (bench_args 2) start_files)) = Suc 0"
    by blast
  have n: "Suc 1 = 2" "Suc 0 = 1" by simp_all
  from r1 r2 r3 q1 q0 m1 m2 show ?thesis unfolding n by blast
qed

section \<open>Exit codes\<close>

lemma main_validation:
  assumes "fs0 (exe a) = None \<or> fs0 (config a) = None \<or> runs a \<le> 0"
  shows "fst (main lb ev a fs0) = Returned 2"
    and "files (snd (main lb ev a fs0)) = fs0"
    and "spawned (snd (main lb ev a fs0)) = 0"
    and "all_values (snd (main lb ev a fs0)) = []"
    and "printed (snd (main lb ev a fs0)) =
          [Stderr (if fs0 (exe a) = None then ''ERROR: exe not found: '' @ exe a
                   else if fs0 (config a) = None then ''ERROR: config not found: '' @ config a
                   else ''ERROR: --runs must be > 0'')]"
  using assms by (auto simp add: main_def Let_def initial_def)

lemma main_valid_outcome:
  assumes "fs0 (exe a) \<noteq> None" "fs0 (config a) \<noteq> None" "0 < runs a"
  shows "fst (main lb ev a fs0) = Returned 0 \<or> (\<exists>e. fst (main lb ev a fs0) = Raised e)"
  using assms
  by (auto simp add: main_def Let_def split: sum.splits option.splits prod.splits)

lemma main_success:
  assumes "fs0 (exe a) \<noteq> None" "fs0 (config a) \<noteq> None" "0 < runs a"
    and "parse_cfg (config a) fs0 = Inr bl"
    and "run_loop lb ev a bl (seed_base ev a) [0..<nat (runs a)] (initial fs0) = (None, s1)"
    and "analyze (all_values s1) = Inr st"
    and "analyze_times_from_master lb (master_csv a) (cleanup (tmpdir ev) (files s1)) = Inr ts"
  shows "fst (main lb ev a fs0) = Returned 0"
  using assms by (simp add: main_def Let_def)

text \<open>
  Claim C6. If the exe path does not exist, or the config path does not exist, or the run
  count is not positive, \<^verbatim>\<open>main\<close> prints one error line to standard error and returns 2;
  the files are as before and no subprocess has been started. Otherwise \<^verbatim>\<open>main\<close> returns
  0 or ends with an exception, and it returns 0 when every step succeeds: the config is
  read, all runs pass, and both analyses return.
\<close>

theorem main_exit_codes:
  "(fs0 (exe a) = None \<or> fs0 (config a) = None \<or> runs a \<le> 0
      \<longrightarrow> fst (main lb ev a fs0) = Returned 2
          \<and> files (snd (main lb ev a fs0)) = fs0
          \<and> spawned (snd (main lb ev a fs0)) = 0
          \<and> printed (snd (main lb ev a fs0)) =
              [Stderr (if fs0 (exe a) = None then ''ERROR: exe not found: '' @ exe a
                       else if fs0 (config a) = None then ''ERROR: config not found: '' @ config a
                       else ''ERROR: --runs must be > 0'')])
   \<and> (fs0 (exe a) \<noteq> None \<and> fs0 (config a) \<noteq> None \<and> 0 < runs a
      \<longrightarrow> fst (main lb ev a fs0) = Returned 0 \<or> (\<exists>e. fst (main lb ev a fs0) = Raised e))
   \<and> (fs0 (exe a) \<noteq> None \<and> fs0 (config a) \<noteq> None \<and> 0 < runs a
        \<and> parse_cfg (config a) fs0 = Inr bl
        \<and> run_loop lb ev a bl (seed_base ev a) [0..<nat (runs a)] (initial fs0) = (None, s1)
        \<and> analyze (all_values s1) = Inr st
        \<and> analyze_times_from_master lb (master_csv a) (cleanup (tmpdir ev) (files s1)) = Inr ts
      \<longrightarrow> fst (main lb ev a fs0) = Returned 0)"
  using main_validation [of fs0 a lb ev] main_valid_outcome [of fs0 a lb ev]
    main_success [of fs0 a bl lb ev s1 st ts]
  by blast

theorem main_exit_codes_witness:
  "no_files (exe (bench_args 2)) = None
   \<and> fst (main plain_lib two_good_runs (bench_args 2) no_files) = Returned 2
   \<and> files (snd (main plain_lib two_good_runs (bench_args 2) no_files)) = no_files
   \<and> spawned (snd (main plain_lib two_good_runs (bench_args 2) no_files)) = 0
   \<and> printed (snd (main plain_lib two_good_runs (bench_args 2) no_files))
       = [Stderr ''ERROR: exe not found: ./project1'']
   \<and> runs (bench_args 0) \<le> 0
   \<and> fst (main plain_lib two_good_runs (bench_args 0) start_files) = Returned 2
   \<and> files (snd (main plain_lib two_good_runs (bench_args 0) start_files)) = start_files
   \<and> spawned (snd (main plain_lib two_good_runs (bench_args 0) start_files)) = 0
   \<and> printed (snd (main plain_lib two_good_runs (bench_args 0) start_files))
       = [Stderr ''ERROR: --runs must be > 0'']
   \<and> fst (main plain_lib two_good_runs (bench_args 2) start_files) = Returned 0"
proof -
  have h1: "no_files (exe (bench_args 2)) = None" by (simp add: no_files_def)
  have h2: "runs (bench_args 0) \<le> 0" by (simp add: bench_args_def)
  have h3: "start_files (exe (bench_args 0)) \<noteq> None \<and> start_files (config (bench_args 0)) \<noteq> None"
    by code_simp
  have m1: "''ERROR: exe not found: '' @ exe (bench_args 2) = ''ERROR: exe not found: ./project1''"
    by (simp add: bench_args_def)
  from main_exit_codes [of no_files "bench_args 2" plain_lib two_good_runs] h1 m1
  have a: "fst (main plain_lib two_good_runs (bench_args 2) no_files) = Returned 2
   \<and> files (snd (main plain_lib two_good_runs (bench_args 2) no_files)) = no_files
   \<and> spawned (snd (main plain_lib two_good_runs (bench_args 2) no_files)) = 0
   \<and> printed (snd (main plain_lib two_good_runs (bench_args 2) no_files))
       = [Stderr ''ERROR: exe not found: ./project1'']"
    by simp
  from main_exit_codes [of start_files "bench_args 0" plain_lib two_good_runs] h2 h3
  have b: "fst (main plain_lib two_good_runs (bench_args 0) start_files) = Returned 2
   \<and> files (snd (main plain_lib two_good_runs (bench_args 0) start_files)) = start_files
   \<and> spawned (snd (main plain_lib two_good_runs (bench_args 0) start_files)) = 0
   \<and> printed (snd (main plain_lib two_good_runs (bench_args 0) start_files))
       = [Stderr ''ERROR: --runs must be > 0'']"
    by simp
  \<comment> \<open>a fully successful invocation\<close>
  have v: "start_files (exe (bench_args 2)) \<noteq> None \<and> start_files (config (bench_args 2)) \<noteq> None
      \<and> 0 < runs (bench_args 2)
      \<and> parse_cfg (config (bench_args 2)) start_files = Inr [''m=3'', ''seed=1'']"
    by code_simp
  define s1 where "s1 = snd (run_loop plain_lib two_good_runs (bench_args 2) [''m=3'', ''seed=1'']
      (seed_base two_good_runs (bench_args 2)) [0..<nat (runs (bench_args 2))] (initial start_files))"
  have "fst (run_loop plain_lib two_good_runs (bench_args 2) [''m=3'', ''seed=1'']
      (seed_base two_good_runs (bench_args 2)) [0..<nat (runs (bench_args 2))] (initial start_files)) = None"
    by code_simp
  then have l: "run_loop plain_lib two_good_runs (bench_args 2) [''m=3'', ''seed=1'']
      (seed_base two_good_runs (bench_args 2)) [0..<nat (runs (bench_args 2))] (initial start_files)
      = (None, s1)"
    unfolding s1_def by (metis prod.collapse)
  have "all_values (snd (run_loop plain_lib two_good_runs (bench_args 2) [''m=3'', ''seed=1'']
      (seed_base two_good_runs (bench_args 2)) [0..<nat (runs (bench_args 2))] (initial start_files)))
      \<noteq> []"
    by code_simp
  then have "all_values s1 \<noteq> []" unfolding s1_def .
  then obtain st where st: "analyze (all_values s1) = Inr st"
    by (simp add: analyze_def Let_def)
  have "\<not> isl (analyze_times_from_master plain_lib (master_csv (bench_args 2))
      (cleanup (tmpdir two_good_runs)
        (files (snd (run_loop plain_lib two_good_runs (bench_args 2) [''m=3'', ''seed=1'']
      (seed_base two_good_runs (bench_args 2)) [0..<nat (runs (bench_args 2))] (initial start_files))))))"
    by code_simp
  then have "\<not> isl (analyze_times_from_master plain_lib (master_csv (bench_args 2))
      (cleanup (tmpdir two_good_runs) (files s1)))"
    unfolding s1_def .
  then obtain ts where ts: "analyze_times_from_master plain_lib (master_csv (bench_args 2))
      (cleanup (tmpdir two_good_runs) (files s1)) = Inr ts"
    by (cases "analyze_times_from_master plain_lib (master_csv (bench_args 2))
      (cleanup (tmpdir two_good_runs) (files s1))") auto
  from main_exit_codes [of start_files "bench_args 2" plain_lib two_good_runs
      "[''m=3'', ''seed=1'']" s1 st ts] v l st ts
  have c: "fst (main plain_lib two_good_runs (bench_args 2) start_files) = Returned 0"
    by blast
  from h1 h2 a b c show ?thesis by blast
qed

section \<open>Properties of the master CSV\<close>

lemma length_master_rows: "length (master_rows repr run_id vals t) = length vals"
  by (simp add: master_rows_def)

lemma append_run_to_master_content:
  "append_run_to_master repr m run_id vals t fs m =
     Some (content fs m @ (if fs m = None then csv_line master_header else [])
            @ concat (map csv_line (master_rows repr run_id vals t)))"
  by (simp add: append_run_to_master_def content_def Let_def)

lemma append_run_to_master_other:
  "p \<noteq> m \<Longrightarrow> append_run_to_master repr m run_id vals t fs p = fs p"
  by (simp add: append_run_to_master_def Let_def)

lemma master_header_line: "csv_line master_header = ''run,experiment,fitness,eval_time_ms'' @ [CR, LF]"
  by (simp add: csv_line_def master_header_def)

text \<open>
  Claim C7. \<^verbatim>\<open>append_run_to_master\<close> only appends to the master CSV: after the call the
  file exists and its text is the text it had before (none when it did not exist),
  followed by the header line \<open>run,experiment,fitness,eval_time_ms\<close> exactly when the
  file did not exist at the call, followed by the rows of the run. So every character
  of the old text is still there, unchanged and at its position. No other file changes.
\<close>

theorem append_run_to_master_only_appends:
  "content (append_run_to_master repr m run_id vals t fs) m =
     content fs m @ (if fs m = None then ''run,experiment,fitness,eval_time_ms'' @ [CR, LF] else [])
       @ concat (map csv_line (master_rows repr run_id vals t))
   \<and> append_run_to_master repr m run_id vals t fs m \<noteq> None
   \<and> take (length (content fs m)) (content (append_run_to_master repr m run_id vals t fs) m)
       = content fs m
   \<and> (\<forall>i < length (content fs m).
         content (append_run_to_master repr m run_id vals t fs) m ! i = content fs m ! i)
   \<and> (\<forall>p. p \<noteq> m \<longrightarrow> append_run_to_master repr m run_id vals t fs p = fs p)"
proof -
  have c: "content (append_run_to_master repr m run_id vals t fs) m =
     content fs m @ (if fs m = None then ''run,experiment,fitness,eval_time_ms'' @ [CR, LF] else [])
       @ concat (map csv_line (master_rows repr run_id vals t))"
    using append_run_to_master_content [of repr m run_id vals t fs] master_header_line
    by (simp add: content_def)
  have n: "append_run_to_master repr m run_id vals t fs m \<noteq> None"
    by (simp add: append_run_to_master_content)
  have t: "take (length (content fs m)) (content (append_run_to_master repr m run_id vals t fs) m)
       = content fs m"
    unfolding c by simp
  have i: "\<forall>i < length (content fs m).
         content (append_run_to_master repr m run_id vals t fs) m ! i = content fs m ! i"
    unfolding c by (simp add: nth_append)
  from c n t i append_run_to_master_other [of _ m repr run_id vals t fs] show ?thesis by blast
qed

theorem append_run_to_master_only_appends_witness:
  "content (append_run_to_master plain_repr_float ''fitness_master.csv'' 3 [1, 2] 5
       (no_files(''fitness_master.csv'' \<mapsto> old_master))) ''fitness_master.csv''
     = old_master @ ''3,0,1.0,5.0'' @ [CR, LF] @ ''3,1,2.0,5.0'' @ [CR, LF]
   \<and> content (append_run_to_master plain_repr_float ''fitness_master.csv'' 0 [1, 2] 5 no_files)
       ''fitness_master.csv''
     = ''run,experiment,fitness,eval_time_ms'' @ [CR, LF]
       @ ''0,0,1.0,5.0'' @ [CR, LF] @ ''0,1,2.0,5.0'' @ [CR, LF]
   \<and> (0::nat) < length (content (no_files(''fitness_master.csv'' \<mapsto> old_master)) ''fitness_master.csv'')
   \<and> content (append_run_to_master plain_repr_float ''fitness_master.csv'' 3 [1, 2] 5
       (no_files(''fitness_master.csv'' \<mapsto> old_master))) ''fitness_master.csv'' ! 0
     = content (no_files(''fitness_master.csv'' \<mapsto> old_master)) ''fitness_master.csv'' ! 0
   \<and> ''input.cfg'' \<noteq> ''fitness_master.csv''
   \<and> append_run_to_master plain_repr_float ''fitness_master.csv'' 0 [1, 2] 5 start_files ''input.cfg''
     = start_files ''input.cfg''"
proof -
  note t1 = append_run_to_master_only_appends [of plain_repr_float "''fitness_master.csv''" 3
      "[1, 2]" 5 "no_files(''fitness_master.csv'' \<mapsto> old_master)"]
  note t2 = append_run_to_master_only_appends [of plain_repr_float "''fitness_master.csv''" 0
      "[1, 2]" 5 no_files]
  note t3 = append_run_to_master_only_appends [of plain_repr_float "''fitness_master.csv''" 0
      "[1, 2]" 5 start_files]
  have e1: "content (no_files(''fitness_master.csv'' \<mapsto> old_master)) ''fitness_master.csv'' = old_master"
    and e2: "(no_files(''fitness_master.csv'' \<mapsto> old_master)) ''fitness_master.csv'' \<noteq> None"
    and e3: "content no_files ''fitness_master.csv'' = []"
    and e4: "no_files ''fitness_master.csv'' = None"
    by (simp_all add: content_def no_files_def)
  have r1: "concat (map csv_line (master_rows plain_repr_float 3 [1, 2] 5))
      = ''3,0,1.0,5.0'' @ [CR, LF] @ ''3,1,2.0,5.0'' @ [CR, LF]"
    by code_simp
  have r2: "concat (map csv_line (master_rows plain_repr_float 0 [1, 2] 5))
      = ''0,0,1.0,5.0'' @ [CR, LF] @ ''0,1,2.0,5.0'' @ [CR, LF]"
    by code_simp
  have z: "(0::nat) < length (content (no_files(''fitness_master.csv'' \<mapsto> old_master)) ''fitness_master.csv'')"
    unfolding e1 by code_simp
  have d: "''input.cfg'' \<noteq> ''fitness_master.csv''" by simp
  have a: "content (append_run_to_master plain_repr_float ''fitness_master.csv'' 3 [1, 2] 5
       (no_files(''fitness_master.csv'' \<mapsto> old_master))) ''fitness_master.csv''
     = old_master @ ''3,0,1.0,5.0'' @ [CR, LF] @ ''3,1,2.0,5.0'' @ [CR, LF]"
    using t1 [THEN conjunct1] e2 unfolding e1 r1 by (simp only: simp_thms if_False append_Nil append_assoc)
  have b: "content (append_run_to_master plain_repr_float ''fitness_master.csv'' 0 [1, 2] 5 no_files)
       ''fitness_master.csv''
     = ''run,experiment,fitness,eval_time_ms'' @ [CR, LF]
       @ ''0,0,1.0,5.0'' @ [CR, LF] @ ''0,1,2.0,5.0'' @ [CR, LF]"
    using t2 [THEN conjunct1] e4 unfolding e3 r2 by (simp only: simp_thms if_True append_Nil append_assoc)
  have c: "content (append_run_to_master plain_repr_float ''fitness_master.csv'' 3 [1, 2] 5
       (no_files(''fitness_master.csv'' \<mapsto> old_master))) ''fitness_master.csv'' ! 0
     = content (no_files(''fitness_master.csv'' \<mapsto> old_master)) ''fitness_master.csv'' ! 0"
    using t1 [THEN conjunct2, THEN conjunct2, THEN conjunct2, THEN conjunct1, rule_format, OF z] .
  have e: "append_run_to_master plain_repr_float ''fitness_master.csv'' 0 [1, 2] 5 start_files ''input.cfg''
     = start_files ''input.cfg''"
    using t3 [THEN conjunct2, THEN conjunct2, THEN conjunct2, THEN conjunct2, rule_format, OF d] .
  from a b z c d e show ?thesis by (intro conjI)
qed

section \<open>The rows of the master CSV after a whole invocation\<close>

lemma startswith_tmp_file: "startswith (tmp_file dir name) (dir @ ''/'')"
  by (simp add: startswith_def tmp_file_def)

lemma cleanup_outside: "\<not> startswith p (dir @ ''/'') \<Longrightarrow> cleanup dir fs p = fs p"
  by (simp add: cleanup_def)

lemma run_program_keeps:
  "program_keeps ev m \<Longrightarrow> snd (run_program ev ex cp t n fs) m = fs m"
proof -
  assume k: "program_keeps ev m"
  obtain r fs' where p: "program ev [ex, cp] t n fs = (r, fs')"
    by (cases "program ev [ex, cp] t n fs")
  with k have "fs' m = fs m" unfolding program_keeps_def by (metis snd_conv)
  with p show ?thesis by (cases r) (simp_all add: run_program_def)
qed

lemma run_once_ok:
  assumes "run_once lb ev a bl bs i s = (None, s')"
  shows "\<exists>vals t fs2.
     fs2 = snd (run_program ev (exe a) (tmp_cfg_path ev i) (timeout a) (spawned s)
                 (write_cfg (run_lines ev a bl bs i) (tmp_cfg_path ev i) (files s)))
     \<and> read_fitness_csv lb (out_csv_path ev i) fs2 = Inr (vals, t)
     \<and> files s' = append_run_to_master (repr_float lb) (master_csv a) (int i) vals t fs2
     \<and> all_values s' = all_values s @ vals
     \<and> printed s' = printed s @ [RunAppended (i + 1) (runs a) (length vals)]"
  using assms
  by (auto simp add: run_once_def Let_def split: prod.splits sum.splits)

lemma run_once_master:
  assumes ok: "run_once lb ev a bl bs i s = (None, s')"
    and keeps: "program_keeps ev (master_csv a)"
    and out: "\<not> startswith (master_csv a) (tmpdir ev @ ''/'')"
  shows "\<exists>vals t.
     content (files s') (master_csv a) =
        content (files s) (master_csv a)
        @ (if files s (master_csv a) = None then csv_line master_header else [])
        @ concat (map csv_line (master_rows (repr_float lb) (int i) vals t))
     \<and> files s' (master_csv a) \<noteq> None
     \<and> all_values s' = all_values s @ vals
     \<and> appended_counts (printed s') = appended_counts (printed s) @ [length vals]"
proof -
  from run_once_ok [OF ok] obtain vals t fs2 where
    fs2: "fs2 = snd (run_program ev (exe a) (tmp_cfg_path ev i) (timeout a) (spawned s)
                 (write_cfg (run_lines ev a bl bs i) (tmp_cfg_path ev i) (files s)))"
    and f: "files s' = append_run_to_master (repr_float lb) (master_csv a) (int i) vals t fs2"
    and v: "all_values s' = all_values s @ vals"
    and p: "printed s' = printed s @ [RunAppended (i + 1) (runs a) (length vals)]"
    by blast
  have "tmp_cfg_path ev i \<noteq> master_csv a"
    using out startswith_tmp_file [of "tmpdir ev" "''run_'' @ str_int (int i) @ ''.cfg''"]
    unfolding tmp_cfg_path_def by metis
  then have "write_cfg (run_lines ev a bl bs i) (tmp_cfg_path ev i) (files s) (master_csv a)
      = files s (master_csv a)"
    by (simp add: write_cfg_def)
  with fs2 have k: "fs2 (master_csv a) = files s (master_csv a)"
    using run_program_keeps [OF keeps] by simp
  then have c: "content fs2 (master_csv a) = content (files s) (master_csv a)"
    by (simp add: content_def)
  have "content (files s') (master_csv a) =
        content (files s) (master_csv a)
        @ (if files s (master_csv a) = None then csv_line master_header else [])
        @ concat (map csv_line (master_rows (repr_float lb) (int i) vals t))"
    unfolding f using append_run_to_master_content [of "repr_float lb" "master_csv a" "int i" vals t fs2]
    by (simp add: content_def c [unfolded content_def] k)
  moreover have "files s' (master_csv a) \<noteq> None"
    unfolding f by (simp add: append_run_to_master_content)
  moreover have "appended_counts (printed s') = appended_counts (printed s) @ [length vals]"
    unfolding p by (simp add: appended_counts_append)
  ultimately show ?thesis using v by blast
qed

lemma run_rows_Cons:
  "run_rows repr ((i, vals, t) # rd) = master_rows repr (int i) vals t @ run_rows repr rd"
  by (simp add: run_rows_def)

lemma run_loop_master:
  assumes keeps: "program_keeps ev (master_csv a)"
    and out: "\<not> startswith (master_csv a) (tmpdir ev @ ''/'')"
  shows "run_loop lb ev a bl bs ids s = (None, s') \<Longrightarrow>
     \<exists>rd. map fst rd = ids
       \<and> content (files s') (master_csv a) =
            content (files s) (master_csv a)
            @ (if files s (master_csv a) = None \<and> ids \<noteq> [] then csv_line master_header else [])
            @ concat (map csv_line (run_rows (repr_float lb) rd))
       \<and> (ids \<noteq> [] \<longrightarrow> files s' (master_csv a) \<noteq> None)
       \<and> all_values s' = all_values s @ concat (map (fst \<circ> snd) rd)
       \<and> appended_counts (printed s') = appended_counts (printed s) @ map (length \<circ> fst \<circ> snd) rd"
proof (induction ids arbitrary: s)
  case Nil
  then have "s' = s" by simp
  then show ?case by (intro exI [of _ "[]"]) (simp add: run_rows_def)
next
  case (Cons i ids)
  then obtain s1 where 1: "run_once lb ev a bl bs i s = (None, s1)"
    and 2: "run_loop lb ev a bl bs ids s1 = (None, s')"
    by (auto split: prod.splits option.splits)
  from run_once_master [OF 1 keeps out] obtain vals t where
    c1: "content (files s1) (master_csv a) =
        content (files s) (master_csv a)
        @ (if files s (master_csv a) = None then csv_line master_header else [])
        @ concat (map csv_line (master_rows (repr_float lb) (int i) vals t))"
    and n1: "files s1 (master_csv a) \<noteq> None"
    and v1: "all_values s1 = all_values s @ vals"
    and p1: "appended_counts (printed s1) = appended_counts (printed s) @ [length vals]"
    by blast
  from Cons.IH [OF 2] obtain rd where
    m: "map fst rd = ids"
    and c2: "content (files s') (master_csv a) =
            content (files s1) (master_csv a)
            @ (if files s1 (master_csv a) = None \<and> ids \<noteq> [] then csv_line master_header else [])
            @ concat (map csv_line (run_rows (repr_float lb) rd))"
    and n2: "ids \<noteq> [] \<longrightarrow> files s' (master_csv a) \<noteq> None"
    and v2: "all_values s' = all_values s1 @ concat (map (fst \<circ> snd) rd)"
    and p2: "appended_counts (printed s') = appended_counts (printed s1) @ map (length \<circ> fst \<circ> snd) rd"
    by blast
  have n: "files s' (master_csv a) \<noteq> None"
  proof (cases ids)
    case Nil
    with 2 n1 show ?thesis by simp
  next
    case (Cons j js)
    with n2 show ?thesis by simp
  qed
  show ?case
  proof (intro exI [of _ "(i, vals, t) # rd"] conjI)
    show "map fst ((i, vals, t) # rd) = i # ids" using m by simp
    show "content (files s') (master_csv a) =
            content (files s) (master_csv a)
            @ (if files s (master_csv a) = None \<and> i # ids \<noteq> [] then csv_line master_header else [])
            @ concat (map csv_line (run_rows (repr_float lb) ((i, vals, t) # rd)))"
      unfolding c2 c1 run_rows_Cons using n1 by auto
    show "i # ids \<noteq> [] \<longrightarrow> files s' (master_csv a) \<noteq> None" using n by simp
    show "all_values s' = all_values s @ concat (map (fst \<circ> snd) ((i, vals, t) # rd))"
      unfolding v2 v1 by simp
    show "appended_counts (printed s') =
        appended_counts (printed s) @ map (length \<circ> fst \<circ> snd) ((i, vals, t) # rd)"
      unfolding p2 p1 by simp
  qed
qed

lemma length_run_rows:
  "length (run_rows repr rd) = sum_list (map (length \<circ> fst \<circ> snd) rd)"
  by (induction rd) (auto simp: run_rows_def length_master_rows)

lemma sum_list_all_equal: "\<forall>k \<in> set ks. k = K \<Longrightarrow> sum_list ks = length ks * K"
  by (induction ks) simp_all

lemma main_master_rows:
  assumes ok: "fst (main lb ev a fs0) = Returned 0"
    and fresh: "fs0 (master_csv a) = None"
    and out: "\<not> startswith (master_csv a) (tmpdir ev @ ''/'')"
    and keeps: "program_keeps ev (master_csv a)"
  shows "\<exists>rd. map fst rd = [0..<nat (runs a)]
     \<and> content (files (snd (main lb ev a fs0))) (master_csv a)
         = csv_line master_header @ concat (map csv_line (run_rows (repr_float lb) rd))
     \<and> all_values (snd (main lb ev a fs0)) = concat (map (fst \<circ> snd) rd)
     \<and> appended_counts (printed (snd (main lb ev a fs0))) = map (length \<circ> fst \<circ> snd) rd"
proof -
  from main_Returned_0 [OF ok] obtain bl s1 st ts where
    pos: "0 < runs a"
    and l: "run_loop lb ev a bl (seed_base ev a) [0..<nat (runs a)] (initial fs0) = (None, s1)"
    and f: "snd (main lb ev a fs0) = s1\<lparr>files := cleanup (tmpdir ev) (files s1),
           printed := printed s1 @ [FitnessAnalytics st, MasterWritten (master_csv a), RuntimeAnalytics ts]\<rparr>"
    by blast
  from pos have ne: "[0..<nat (runs a)] \<noteq> []" by simp
  from run_loop_master [OF keeps out l] obtain rd where
    m: "map fst rd = [0..<nat (runs a)]"
    and c: "content (files s1) (master_csv a) =
            content (files (initial fs0)) (master_csv a)
            @ (if files (initial fs0) (master_csv a) = None \<and> [0..<nat (runs a)] \<noteq> []
               then csv_line master_header else [])
            @ concat (map csv_line (run_rows (repr_float lb) rd))"
    and v: "all_values s1 = all_values (initial fs0) @ concat (map (fst \<circ> snd) rd)"
    and p: "appended_counts (printed s1)
             = appended_counts (printed (initial fs0)) @ map (length \<circ> fst \<circ> snd) rd"
    by blast
  have "content (files (snd (main lb ev a fs0))) (master_csv a) = content (files s1) (master_csv a)"
    unfolding f using cleanup_outside [OF out] by (simp add: content_def)
  also have "\<dots> = csv_line master_header @ concat (map csv_line (run_rows (repr_float lb) rd))"
    unfolding c using fresh ne by (simp add: initial_def content_def)
  finally have 1: "content (files (snd (main lb ev a fs0))) (master_csv a)
         = csv_line master_header @ concat (map csv_line (run_rows (repr_float lb) rd))" .
  have 2: "all_values (snd (main lb ev a fs0)) = concat (map (fst \<circ> snd) rd)"
    unfolding f using v by (simp add: initial_def)
  have 3: "appended_counts (printed (snd (main lb ev a fs0))) = map (length \<circ> fst \<circ> snd) rd"
    unfolding f using p by (simp add: initial_def appended_counts_append)
  from m 1 2 3 show ?thesis by blast
qed

text \<open>
  Claim C2. Each call of \<^verbatim>\<open>append_run_to_master\<close> with \<open>K\<close> fitness values appends
  exactly \<open>K\<close> data rows, after one header row when the call creates the file. For a
  whole invocation that succeeds and creates the master CSV (the file did not exist, it
  is not inside the temporary directory, and the benchmarked program does not touch it),
  the file holds the header row followed by the rows of the runs \<open>0, 1, ...\<close> in order,
  one row for each collected fitness value: \<open>N * K\<close> data rows when each of the \<open>N\<close>
  runs reports \<open>K\<close> values.
\<close>

theorem master_csv_row_count:
  "(content (append_run_to_master repr m run_id vals t fs) m
      = content fs m @ (if fs m = None then csv_line master_header else [])
          @ concat (map csv_line (master_rows repr run_id vals t))
    \<and> length (master_rows repr run_id vals t) = length vals)
   \<and> (fst (main lb ev a fs0) = Returned 0 \<and> fs0 (master_csv a) = None
        \<and> \<not> startswith (master_csv a) (tmpdir ev @ ''/'') \<and> program_keeps ev (master_csv a)
      \<longrightarrow> (\<exists>rd. map fst rd = [0..<nat (runs a)]
            \<and> content (files (snd (main lb ev a fs0))) (master_csv a)
                = csv_line master_header @ concat (map csv_line (run_rows (repr_float lb) rd))
            \<and> all_values (snd (main lb ev a fs0)) = concat (map (fst \<circ> snd) rd)
            \<and> appended_counts (printed (snd (main lb ev a fs0))) = map (length \<circ> fst \<circ> snd) rd
            \<and> length (run_rows (repr_float lb) rd) = length (all_values (snd (main lb ev a fs0)))
            \<and> ((\<forall>k \<in> set (appended_counts (printed (snd (main lb ev a fs0)))). k = K)
                 \<longrightarrow> length (run_rows (repr_float lb) rd) = nat (runs a) * K)))"
proof (intro conjI impI)
  show "content (append_run_to_master repr m run_id vals t fs) m
      = content fs m @ (if fs m = None then csv_line master_header else [])
          @ concat (map csv_line (master_rows repr run_id vals t))"
    using append_run_to_master_content [of repr m run_id vals t fs] by (simp add: content_def)
  show "length (master_rows repr run_id vals t) = length vals" by (rule length_master_rows)
next
  assume h: "fst (main lb ev a fs0) = Returned 0 \<and> fs0 (master_csv a) = None
        \<and> \<not> startswith (master_csv a) (tmpdir ev @ ''/'') \<and> program_keeps ev (master_csv a)"
  then obtain rd where m: "map fst rd = [0..<nat (runs a)]"
    and c: "content (files (snd (main lb ev a fs0))) (master_csv a)
         = csv_line master_header @ concat (map csv_line (run_rows (repr_float lb) rd))"
    and v: "all_values (snd (main lb ev a fs0)) = concat (map (fst \<circ> snd) rd)"
    and p: "appended_counts (printed (snd (main lb ev a fs0))) = map (length \<circ> fst \<circ> snd) rd"
    using main_master_rows [of lb ev a fs0] by blast
  have lv: "length (run_rows (repr_float lb) rd) = length (all_values (snd (main lb ev a fs0)))"
    unfolding v length_run_rows by (simp add: length_concat comp_def)
  have lk: "(\<forall>k \<in> set (appended_counts (printed (snd (main lb ev a fs0)))). k = K)
      \<longrightarrow> length (run_rows (repr_float lb) rd) = nat (runs a) * K"
  proof
    assume "\<forall>k \<in> set (appended_counts (printed (snd (main lb ev a fs0)))). k = K"
    then have "sum_list (map (length \<circ> fst \<circ> snd) rd) = length (map (length \<circ> fst \<circ> snd) rd) * K"
      unfolding p by (rule sum_list_all_equal)
    moreover have "length rd = nat (runs a)" using m by (metis length_map length_upt minus_nat.diff_0)
    ultimately show "length (run_rows (repr_float lb) rd) = nat (runs a) * K"
      by (simp add: length_run_rows)
  qed
  from m c v p lv lk
  show "\<exists>rd. map fst rd = [0..<nat (runs a)]
            \<and> content (files (snd (main lb ev a fs0))) (master_csv a)
                = csv_line master_header @ concat (map csv_line (run_rows (repr_float lb) rd))
            \<and> all_values (snd (main lb ev a fs0)) = concat (map (fst \<circ> snd) rd)
            \<and> appended_counts (printed (snd (main lb ev a fs0))) = map (length \<circ> fst \<circ> snd) rd
            \<and> length (run_rows (repr_float lb) rd) = length (all_values (snd (main lb ev a fs0)))
            \<and> ((\<forall>k \<in> set (appended_counts (printed (snd (main lb ev a fs0)))). k = K)
                 \<longrightarrow> length (run_rows (repr_float lb) rd) = nat (runs a) * K)"
    by blast
qed

lemma two_good_runs_steps:
  obtains s1 st ts where
    "run_loop plain_lib two_good_runs (bench_args 2) [''m=3'', ''seed=1'']
       (seed_base two_good_runs (bench_args 2)) [0..<nat (runs (bench_args 2))] (initial start_files)
     = (None, s1)"
    "analyze (all_values s1) = Inr st"
    "analyze_times_from_master plain_lib (master_csv (bench_args 2))
       (cleanup (tmpdir two_good_runs) (files s1)) = Inr ts"
    "appended_counts (printed s1) = [3, 3]"
    "runs_v ts = 2"
proof -
  define s1 where "s1 = snd (run_loop plain_lib two_good_runs (bench_args 2) [''m=3'', ''seed=1'']
      (seed_base two_good_runs (bench_args 2)) [0..<nat (runs (bench_args 2))] (initial start_files))"
  have "fst (run_loop plain_lib two_good_runs (bench_args 2) [''m=3'', ''seed=1'']
      (seed_base two_good_runs (bench_args 2)) [0..<nat (runs (bench_args 2))] (initial start_files)) = None"
    by code_simp
  then have l: "run_loop plain_lib two_good_runs (bench_args 2) [''m=3'', ''seed=1'']
      (seed_base two_good_runs (bench_args 2)) [0..<nat (runs (bench_args 2))] (initial start_files)
      = (None, s1)"
    unfolding s1_def by (metis prod.collapse)
  have "all_values (snd (run_loop plain_lib two_good_runs (bench_args 2) [''m=3'', ''seed=1'']
      (seed_base two_good_runs (bench_args 2)) [0..<nat (runs (bench_args 2))] (initial start_files)))
      \<noteq> []"
    by code_simp
  then have "all_values s1 \<noteq> []" unfolding s1_def .
  then obtain st where st: "analyze (all_values s1) = Inr st"
    by (simp add: analyze_def Let_def)
  have "case analyze_times_from_master plain_lib (master_csv (bench_args 2))
      (cleanup (tmpdir two_good_runs)
        (files (snd (run_loop plain_lib two_good_runs (bench_args 2) [''m=3'', ''seed=1'']
      (seed_base two_good_runs (bench_args 2)) [0..<nat (runs (bench_args 2))] (initial start_files)))))
      of Inl e \<Rightarrow> False | Inr ts \<Rightarrow> runs_v ts = 2"
    by code_simp
  then have "case analyze_times_from_master plain_lib (master_csv (bench_args 2))
      (cleanup (tmpdir two_good_runs) (files s1)) of Inl e \<Rightarrow> False | Inr ts \<Rightarrow> runs_v ts = 2"
    unfolding s1_def .
  then obtain ts where ts: "analyze_times_from_master plain_lib (master_csv (bench_args 2))
      (cleanup (tmpdir two_good_runs) (files s1)) = Inr ts" "runs_v ts = 2"
    by (auto split: sum.splits)
  have "appended_counts (printed (snd (run_loop plain_lib two_good_runs (bench_args 2) [''m=3'', ''seed=1'']
      (seed_base two_good_runs (bench_args 2)) [0..<nat (runs (bench_args 2))] (initial start_files))))
      = [3, 3]"
    by code_simp
  then have ac: "appended_counts (printed s1) = [3, 3]" unfolding s1_def .
  from that [OF l st ts(1) ac ts(2)] show ?thesis .
qed

lemma two_good_runs_valid:
  "start_files (exe (bench_args 2)) \<noteq> None" "start_files (config (bench_args 2)) \<noteq> None"
  "0 < runs (bench_args 2)"
  "parse_cfg (config (bench_args 2)) start_files = Inr [''m=3'', ''seed=1'']"
  by code_simp+

theorem master_csv_row_count_witness:
  "fst (main plain_lib two_good_runs (bench_args 2) start_files) = Returned 0
   \<and> start_files (master_csv (bench_args 2)) = None
   \<and> \<not> startswith (master_csv (bench_args 2)) (tmpdir two_good_runs @ ''/'')
   \<and> program_keeps two_good_runs (master_csv (bench_args 2))
   \<and> appended_counts (printed (snd (main plain_lib two_good_runs (bench_args 2) start_files))) = [3, 3]
   \<and> (\<exists>rd. content (files (snd (main plain_lib two_good_runs (bench_args 2) start_files)))
              (master_csv (bench_args 2))
            = csv_line master_header @ concat (map csv_line (run_rows (repr_float plain_lib) rd))
          \<and> length (run_rows (repr_float plain_lib) rd) = nat (runs (bench_args 2)) * 3)
   \<and> nat (runs (bench_args 2)) * 3 = 6"
proof -
  obtain s1 st ts where
    l: "run_loop plain_lib two_good_runs (bench_args 2) [''m=3'', ''seed=1'']
       (seed_base two_good_runs (bench_args 2)) [0..<nat (runs (bench_args 2))] (initial start_files)
     = (None, s1)"
    and st: "analyze (all_values s1) = Inr st"
    and ts: "analyze_times_from_master plain_lib (master_csv (bench_args 2))
       (cleanup (tmpdir two_good_runs) (files s1)) = Inr ts"
    and ac: "appended_counts (printed s1) = [3, 3]"
    by (rule two_good_runs_steps)
  note m = main_success_result [OF two_good_runs_valid l st ts]
  have h1: "fst (main plain_lib two_good_runs (bench_args 2) start_files) = Returned 0"
    unfolding m by simp
  have h2: "start_files (master_csv (bench_args 2)) = None"
    by code_simp
  have h3: "\<not> startswith (master_csv (bench_args 2)) (tmpdir two_good_runs @ ''/'')"
    by code_simp
  have h4: "program_keeps two_good_runs (master_csv (bench_args 2))"
    by (simp add: program_keeps_def two_good_runs_def fake_env_def fake_program_def
        bench_args_def tmp_file_def)
  have h5': "appended_counts (printed (snd (main plain_lib two_good_runs (bench_args 2) start_files))) = [3, 3]"
    unfolding m using ac by (simp add: appended_counts_append)
  then have h5: "\<forall>k \<in> set (appended_counts (printed (snd (main plain_lib two_good_runs (bench_args 2) start_files)))).
         k = 3"
    by simp
  have n: "nat (runs (bench_args 2)) * 3 = 6" by (simp add: bench_args_def)
  from master_csv_row_count [THEN conjunct2, rule_format, of plain_lib two_good_runs "bench_args 2"
      start_files, OF conjI [OF h1 conjI [OF h2 conjI [OF h3 h4]]]]
  obtain rd where c: "content (files (snd (main plain_lib two_good_runs (bench_args 2) start_files)))
              (master_csv (bench_args 2))
            = csv_line master_header @ concat (map csv_line (run_rows (repr_float plain_lib) rd))"
    and k: "(\<forall>k \<in> set (appended_counts (printed (snd (main plain_lib two_good_runs (bench_args 2) start_files)))).
         k = 3) \<longrightarrow> length (run_rows (repr_float plain_lib) rd) = nat (runs (bench_args 2)) * 3"
    by blast
  from k h5 have "length (run_rows (repr_float plain_lib) rd) = nat (runs (bench_args 2)) * 3"
    by (rule mp)
  with c have e: "\<exists>rd. content (files (snd (main plain_lib two_good_runs (bench_args 2) start_files)))
              (master_csv (bench_args 2))
            = csv_line master_header @ concat (map csv_line (run_rows (repr_float plain_lib) rd))
          \<and> length (run_rows (repr_float plain_lib) rd) = nat (runs (bench_args 2)) * 3"
    by (intro exI [of _ rd] conjI)
  from h1 h2 h3 h4 h5' e n show ?thesis by (intro conjI)
qed

section \<open>Runtime analytics\<close>

lemma one_good_run_steps:
  assumes v: "fs0 (exe (bench_args 1)) \<noteq> None" "fs0 (config (bench_args 1)) \<noteq> None"
      "0 < runs (bench_args 1)"
      "parse_cfg (config (bench_args 1)) fs0 = Inr [''m=3'', ''seed=1'']"
    and l: "fst (run_loop plain_lib one_good_run (bench_args 1) [''m=3'', ''seed=1'']
       (seed_base one_good_run (bench_args 1)) [0..<nat (runs (bench_args 1))] (initial fs0)) = None"
    and n: "all_values (snd (run_loop plain_lib one_good_run (bench_args 1) [''m=3'', ''seed=1'']
       (seed_base one_good_run (bench_args 1)) [0..<nat (runs (bench_args 1))] (initial fs0))) \<noteq> []"
    and t: "analyze_times_from_master plain_lib (master_csv (bench_args 1))
       (cleanup (tmpdir one_good_run)
         (files (snd (run_loop plain_lib one_good_run (bench_args 1) [''m=3'', ''seed=1'']
       (seed_base one_good_run (bench_args 1)) [0..<nat (runs (bench_args 1))] (initial fs0)))))
      = Inr ts"
  shows "fst (main plain_lib one_good_run (bench_args 1) fs0) = Returned 0"
    and "last (printed (snd (main plain_lib one_good_run (bench_args 1) fs0))) = RuntimeAnalytics ts"
    and "spawned (snd (main plain_lib one_good_run (bench_args 1) fs0))
          = spawned (snd (run_loop plain_lib one_good_run (bench_args 1) [''m=3'', ''seed=1'']
       (seed_base one_good_run (bench_args 1)) [0..<nat (runs (bench_args 1))] (initial fs0)))"
    and "files (snd (main plain_lib one_good_run (bench_args 1) fs0))
          = cleanup (tmpdir one_good_run)
         (files (snd (run_loop plain_lib one_good_run (bench_args 1) [''m=3'', ''seed=1'']
       (seed_base one_good_run (bench_args 1)) [0..<nat (runs (bench_args 1))] (initial fs0))))"
proof -
  define s1 where "s1 = snd (run_loop plain_lib one_good_run (bench_args 1) [''m=3'', ''seed=1'']
       (seed_base one_good_run (bench_args 1)) [0..<nat (runs (bench_args 1))] (initial fs0))"
  from l have l': "run_loop plain_lib one_good_run (bench_args 1) [''m=3'', ''seed=1'']
       (seed_base one_good_run (bench_args 1)) [0..<nat (runs (bench_args 1))] (initial fs0)
      = (None, s1)"
    unfolding s1_def by (metis prod.collapse)
  from n obtain st where st: "analyze (all_values s1) = Inr st"
    unfolding s1_def [symmetric] by (simp add: analyze_def Let_def)
  note m = main_success_result [OF v l' st t [folded s1_def]]
  show "fst (main plain_lib one_good_run (bench_args 1) fs0) = Returned 0"
    unfolding m by simp
  show "last (printed (snd (main plain_lib one_good_run (bench_args 1) fs0))) = RuntimeAnalytics ts"
    unfolding m by simp
  show "spawned (snd (main plain_lib one_good_run (bench_args 1) fs0))
          = spawned (snd (run_loop plain_lib one_good_run (bench_args 1) [''m=3'', ''seed=1'']
       (seed_base one_good_run (bench_args 1)) [0..<nat (runs (bench_args 1))] (initial fs0)))"
    unfolding m s1_def by simp
  show "files (snd (main plain_lib one_good_run (bench_args 1) fs0))
          = cleanup (tmpdir one_good_run)
         (files (snd (run_loop plain_lib one_good_run (bench_args 1) [''m=3'', ''seed=1'']
       (seed_base one_good_run (bench_args 1)) [0..<nat (runs (bench_args 1))] (initial fs0))))"
    unfolding m s1_def by simp
qed

text \<open>
  Claim C8 says that the runtime analytics use exactly one timing value for each run of
  the current invocation. The code takes them from the whole master CSV, keeping for each
  run id the first row with that id, and run ids start at 0 in every invocation. Evaluated
  on an invocation of one run (three experiments, 5 ms) that finds the master CSV of an
  earlier invocation of three runs (9 ms each): the script starts one subprocess, appends
  the three rows of run 0 with 5 ms, and reports 3 runs with average, minimum and
  maximum 9 ms. With the same inputs and no earlier master CSV it reports 1 run and 5 ms.
\<close>

theorem runtime_analytics_with_old_master:
  "fst (main plain_lib one_good_run (bench_args 1) files_with_old_master) = Returned 0
   \<and> spawned (snd (main plain_lib one_good_run (bench_args 1) files_with_old_master)) = 1
   \<and> content (files (snd (main plain_lib one_good_run (bench_args 1) files_with_old_master)))
        ''fitness_master.csv''
       = old_master @ ''0,0,1.0,5.0'' @ [CR, LF] @ ''0,1,2.0,5.0'' @ [CR, LF]
           @ ''0,2,3.0,5.0'' @ [CR, LF]
   \<and> last (printed (snd (main plain_lib one_good_run (bench_args 1) files_with_old_master)))
       = RuntimeAnalytics \<lparr>runs_v = 3, avg_ms = 9, min_ms = 9, max_ms = 9\<rparr>
   \<and> fst (main plain_lib one_good_run (bench_args 1) start_files) = Returned 0
   \<and> last (printed (snd (main plain_lib one_good_run (bench_args 1) start_files)))
       = RuntimeAnalytics \<lparr>runs_v = 1, avg_ms = 5, min_ms = 5, max_ms = 5\<rparr>"
proof -
  have v: "files_with_old_master (exe (bench_args 1)) \<noteq> None"
      "files_with_old_master (config (bench_args 1)) \<noteq> None"
      "0 < runs (bench_args 1)"
      "parse_cfg (config (bench_args 1)) files_with_old_master = Inr [''m=3'', ''seed=1'']"
    by code_simp+
  have l: "fst (run_loop plain_lib one_good_run (bench_args 1) [''m=3'', ''seed=1'']
       (seed_base one_good_run (bench_args 1)) [0..<nat (runs (bench_args 1))]
       (initial files_with_old_master)) = None"
    by code_simp
  have n: "all_values (snd (run_loop plain_lib one_good_run (bench_args 1) [''m=3'', ''seed=1'']
       (seed_base one_good_run (bench_args 1)) [0..<nat (runs (bench_args 1))]
       (initial files_with_old_master))) \<noteq> []"
    by code_simp
  have t: "analyze_times_from_master plain_lib (master_csv (bench_args 1))
       (cleanup (tmpdir one_good_run)
         (files (snd (run_loop plain_lib one_good_run (bench_args 1) [''m=3'', ''seed=1'']
       (seed_base one_good_run (bench_args 1)) [0..<nat (runs (bench_args 1))]
       (initial files_with_old_master)))))
      = Inr \<lparr>runs_v = 3, avg_ms = 9, min_ms = 9, max_ms = 9\<rparr>"
    by code_simp
  have s: "spawned (snd (run_loop plain_lib one_good_run (bench_args 1) [''m=3'', ''seed=1'']
       (seed_base one_good_run (bench_args 1)) [0..<nat (runs (bench_args 1))]
       (initial files_with_old_master))) = 1"
    by code_simp
  have c: "content (cleanup (tmpdir one_good_run)
         (files (snd (run_loop plain_lib one_good_run (bench_args 1) [''m=3'', ''seed=1'']
       (seed_base one_good_run (bench_args 1)) [0..<nat (runs (bench_args 1))]
       (initial files_with_old_master))))) ''fitness_master.csv''
       = old_master @ ''0,0,1.0,5.0'' @ [CR, LF] @ ''0,1,2.0,5.0'' @ [CR, LF]
           @ ''0,2,3.0,5.0'' @ [CR, LF]"
    by code_simp
  note o = one_good_run_steps [OF v l n t]
  have v': "start_files (exe (bench_args 1)) \<noteq> None"
      "start_files (config (bench_args 1)) \<noteq> None"
      "0 < runs (bench_args 1)"
      "parse_cfg (config (bench_args 1)) start_files = Inr [''m=3'', ''seed=1'']"
    by code_simp+
  have l': "fst (run_loop plain_lib one_good_run (bench_args 1) [''m=3'', ''seed=1'']
       (seed_base one_good_run (bench_args 1)) [0..<nat (runs (bench_args 1))]
       (initial start_files)) = None"
    by code_simp
  have n': "all_values (snd (run_loop plain_lib one_good_run (bench_args 1) [''m=3'', ''seed=1'']
       (seed_base one_good_run (bench_args 1)) [0..<nat (runs (bench_args 1))]
       (initial start_files))) \<noteq> []"
    by code_simp
  have t': "analyze_times_from_master plain_lib (master_csv (bench_args 1))
       (cleanup (tmpdir one_good_run)
         (files (snd (run_loop plain_lib one_good_run (bench_args 1) [''m=3'', ''seed=1'']
       (seed_base one_good_run (bench_args 1)) [0..<nat (runs (bench_args 1))]
       (initial start_files)))))
      = Inr \<lparr>runs_v = 1, avg_ms = 5, min_ms = 5, max_ms = 5\<rparr>"
    by code_simp
  note o' = one_good_run_steps [OF v' l' n' t']
  show ?thesis
    unfolding o o' s c by (intro conjI refl)
qed

end
